theory Spec2Isabelle
  imports Main
begin

unbundle bit_operations_syntax

section \<open>JavaScript values used by the validators\<close>

text \<open>
  A thrown JavaScript error is a value: every function that can throw returns
  \<open>exn + 'a\<close>, with \<open>Inl\<close> the exception. Strings are lists of characters;
  the case mappings are the ASCII ones (the address alphabets are ASCII, and a
  character outside 33..126 never survives a Bech32 decode).
\<close>

datatype exn = Error string

definition toLowerChar :: "char \<Rightarrow> char" where
  "toLowerChar c =
     (let n = (of_char c :: nat) in if 65 \<le> n \<and> n \<le> 90 then char_of (n + 32) else c)"

definition toUpperChar :: "char \<Rightarrow> char" where
  "toUpperChar c =
     (let n = (of_char c :: nat) in if 97 \<le> n \<and> n \<le> 122 then char_of (n - 32) else c)"

definition toLowerCase :: "string \<Rightarrow> string" where
  "toLowerCase s = map toLowerChar s"

definition toUpperCase :: "string \<Rightarrow> string" where
  "toUpperCase s = map toUpperChar s"

text \<open>\<open>s.startsWith(p)\<close>, and lodash/fp's \<open>_.startsWith(p, s)\<close>.\<close>

definition startsWith :: "'a list \<Rightarrow> 'a list \<Rightarrow> bool" where
  "startsWith s p = (take (length p) s = p)"

text \<open>\<open>s.slice(-n)\<close>: the last \<open>n\<close> elements, all of \<open>s\<close> when it is shorter.\<close>

definition sliceLast :: "nat \<Rightarrow> 'a list \<Rightarrow> 'a list" where
  "sliceLast n s = drop (length s - n) s"

text \<open>\<open>s.slice(0, -n)\<close>: all but the last \<open>n\<close> elements, empty when \<open>s\<close> is shorter.\<close>

definition sliceButLast :: "nat \<Rightarrow> 'a list \<Rightarrow> 'a list" where
  "sliceButLast n s = take (length s - n) s"

text \<open>\<open>xs[i]\<close>: \<open>undefined\<close> (here \<open>None\<close>) out of range.\<close>

definition at :: "'a list \<Rightarrow> nat \<Rightarrow> 'a option" where
  "at xs i = (if i < length xs then Some (xs ! i) else None)"

text \<open>\<open>s.lastIndexOf(c)\<close>, with \<open>None\<close> for JavaScript's \<open>-1\<close>.\<close>

fun lastIndexOf :: "'a list \<Rightarrow> 'a \<Rightarrow> nat option" where
  "lastIndexOf [] c = None"
| "lastIndexOf (x # xs) c =
     (case lastIndexOf xs c of
        Some i \<Rightarrow> Some (Suc i)
      | None \<Rightarrow> if x = c then Some 0 else None)"

subsection \<open>Buffers and hexadecimal strings\<close>

definition hexDigit :: "int \<Rightarrow> char" where
  "hexDigit n = ''0123456789abcdef'' ! nat (n mod 16)"

text \<open>Two digits for each byte; a Buffer holds its elements modulo 256.\<close>

definition byteHex :: "int \<Rightarrow> string" where
  "byteHex b = [hexDigit (b div 16), hexDigit b]"

definition toHex :: "int list \<Rightarrow> string" where
  "toHex bytes = concat (map byteHex bytes)"

text \<open>\<open>Buffer.from(str)\<close> on an ASCII string: one byte for each character.\<close>

definition bufferFromString :: "string \<Rightarrow> int list" where
  "bufferFromString s = map of_char s"

section \<open>The bech32 package\<close>

text \<open>
  The validators import \<open>bech32\<close> and \<open>bech32m\<close> from the npm package
  \<open>bech32\<close> (version 2), a dependency that is not part of the repository's own
  sources. Both objects share the functions below and differ in the checksum
  constant only. All intermediate values of the checksum stay below \<open>2 ^ 30\<close>, so
  JavaScript's 32-bit operators act on them as the operations on integers do.
\<close>

definition ALPHABET :: string where
  "ALPHABET = ''qpzry9x8gf2tvdw0s3jn54khce6mua7l''"

definition ALPHABET_MAP :: "char \<Rightarrow> int option" where
  "ALPHABET_MAP = map_of (zip ALPHABET [0..31])"

definition polymodStep :: "int \<Rightarrow> int" where
  "polymodStep pre =
     (let b = drop_bit 25 pre in
        push_bit 5 (pre AND 0x1ffffff)
        XOR (if bit b 0 then 0x3b6a57b2 else 0)
        XOR (if bit b 1 then 0x26508e6d else 0)
        XOR (if bit b 2 then 0x1ea119fa else 0)
        XOR (if bit b 3 then 0x3d4233dd else 0)
        XOR (if bit b 4 then 0x2a1462b3 else 0))"

fun prefixChkHigh :: "string \<Rightarrow> string \<Rightarrow> int \<Rightarrow> exn + int" where
  "prefixChkHigh prefix [] chk = Inr chk"
| "prefixChkHigh prefix (x # xs) chk =
     (let c = (of_char x :: int) in
        if c < 33 \<or> c > 126 then Inl (Error (''Invalid prefix ('' @ prefix @ '')''))
        else prefixChkHigh prefix xs (polymodStep chk XOR drop_bit 5 c))"

fun prefixChkLow :: "string \<Rightarrow> int \<Rightarrow> int" where
  "prefixChkLow [] chk = chk"
| "prefixChkLow (x # xs) chk =
     prefixChkLow xs (polymodStep chk XOR ((of_char x :: int) AND 0x1f))"

definition prefixChk :: "string \<Rightarrow> exn + int" where
  "prefixChk prefix =
     (case prefixChkHigh prefix prefix 1 of
        Inl e \<Rightarrow> Inl e
      | Inr chk \<Rightarrow> Inr (prefixChkLow prefix (polymodStep chk)))"

text \<open>
  \<open>convert(data, inBits, outBits, pad)\<close>: the loop over the input, carrying
  \<open>value\<close>, \<open>bits\<close> and \<open>result\<close>. Only the low \<open>bits\<close> bits of \<open>value\<close> are
  ever read again, so the bits that JavaScript's 32-bit shift drops are never seen.
  \<open>convertEmit\<close> is the inner \<open>while (bits >= outBits)\<close>; the package calls
  \<open>convert\<close> with \<open>outBits\<close> 8 or 5 only, and the test \<open>outBits \<noteq> 0\<close> is
  there for the function to be total.
\<close>

function convertEmit :: "nat \<Rightarrow> int \<Rightarrow> nat \<Rightarrow> int list \<Rightarrow> nat \<times> int list" where
  "convertEmit outBits v bits result =
     (if outBits \<noteq> 0 \<and> bits \<ge> outBits
      then convertEmit outBits v (bits - outBits)
             (result @ [drop_bit (bits - outBits) v AND (2 ^ outBits - 1)])
      else (bits, result))"
  by pat_completeness auto
termination
  by (relation "measure (\<lambda>(outBits, v, bits, result). bits)") auto

declare convertEmit.simps [simp del]

fun convertLoop :: "nat \<Rightarrow> nat \<Rightarrow> int list \<Rightarrow> int \<Rightarrow> nat \<Rightarrow> int list \<Rightarrow> int \<times> nat \<times> int list" where
  "convertLoop inBits outBits [] v bits result = (v, bits, result)"
| "convertLoop inBits outBits (d # ds) v bits result =
     (let v' = push_bit inBits v OR d;
          (bits', result') = convertEmit outBits v' (bits + inBits) result
      in convertLoop inBits outBits ds v' bits' result')"

definition convert :: "int list \<Rightarrow> nat \<Rightarrow> nat \<Rightarrow> bool \<Rightarrow> string + int list" where
  "convert data inBits outBits pad =
     (let maxV = 2 ^ outBits - 1;
          (v, bits, result) = convertLoop inBits outBits data 0 0 []
      in if pad
         then (if bits > 0 then Inr (result @ [push_bit (outBits - bits) v AND maxV])
               else Inr result)
         else if bits \<ge> inBits then Inl ''Excess padding''
         else if push_bit (outBits - bits) v AND maxV \<noteq> 0 then Inl ''Non-zero padding''
         else Inr result)"

text \<open>\<open>fromWords\<close> throws what \<open>convert\<close> reports.\<close>

definition fromWords :: "int list \<Rightarrow> exn + int list" where
  "fromWords ws =
     (case convert ws 5 8 False of Inr res \<Rightarrow> Inr res | Inl msg \<Rightarrow> Inl (Error msg))"

record decoded =
  prefix :: string
  words :: "int list"

fun decodeWords :: "nat \<Rightarrow> string \<Rightarrow> nat \<Rightarrow> int \<Rightarrow> int list \<Rightarrow> string + int \<times> int list" where
  "decodeWords n [] i chk ws = Inr (chk, ws)"
| "decodeWords n (c # cs) i chk ws =
     (case ALPHABET_MAP c of
        None \<Rightarrow> Inl (''Unknown character '' @ [c])
      | Some v \<Rightarrow>
          (let chk' = polymodStep chk XOR v in
             if i + 6 \<ge> n then decodeWords n cs (i + 1) chk' ws
             else decodeWords n cs (i + 1) chk' (ws @ [v])))"

text \<open>
  \<open>__decode(str, LIMIT)\<close> of the library built for the checksum constant
  \<open>ENCODING_CONST\<close>; a missing or zero \<open>LIMIT\<close> becomes 90.
\<close>

definition decode_inner :: "int \<Rightarrow> string \<Rightarrow> int option \<Rightarrow> string + decoded" where
  "decode_inner ENCODING_CONST str LIMIT =
     (let LIMIT' = (case LIMIT of None \<Rightarrow> 90 | Some l \<Rightarrow> if l = 0 then 90 else l) in
      if length str < 8 then Inl (str @ '' too short'')
      else if int (length str) > LIMIT' then Inl ''Exceeds length limit''
      else
        let lowered = toLowerCase str; uppered = toUpperCase str in
        if str \<noteq> lowered \<and> str \<noteq> uppered then Inl (''Mixed-case string '' @ str)
        else
          (case lastIndexOf lowered CHR ''1'' of
             None \<Rightarrow> Inl (''No separator character for '' @ lowered)
           | Some split \<Rightarrow>
               if split = 0 then Inl (''Missing prefix for '' @ lowered)
               else
                 let pre = take split lowered; wordChars = drop (split + 1) lowered in
                 if length wordChars < 6 then Inl ''Data too short''
                 else
                   (case prefixChk pre of
                      Inl (Error msg) \<Rightarrow> Inl msg
                    | Inr chk0 \<Rightarrow>
                        (case decodeWords (length wordChars) wordChars 0 chk0 [] of
                           Inl msg \<Rightarrow> Inl msg
                         | Inr (chk, ws) \<Rightarrow>
                             if chk \<noteq> ENCODING_CONST
                             then Inl (''Invalid checksum for '' @ lowered)
                             else Inr \<lparr>prefix = pre, words = ws\<rparr>))))"

definition decode :: "int \<Rightarrow> string \<Rightarrow> int option \<Rightarrow> exn + decoded" where
  "decode ENCODING_CONST str LIMIT =
     (case decode_inner ENCODING_CONST str LIMIT of
        Inr res \<Rightarrow> Inr res
      | Inl msg \<Rightarrow> Inl (Error msg))"

definition bech32_decode :: "string \<Rightarrow> int option \<Rightarrow> exn + decoded" where
  "bech32_decode = decode 1"

definition bech32m_decode :: "string \<Rightarrow> int option \<Rightarrow> exn + decoded" where
  "bech32m_decode = decode 0x2bc830a3"

section \<open>The validators\<close>

text \<open>
  The functions of \<open>src/plugins/validators/index.ts\<close>. Each takes the decoder
  (and hash, and de-jumbling function) it calls as its first arguments, so that
  what is proved of a validator holds for whatever these functions compute. A
  validator returns \<open>Inr b\<close> when the source returns \<open>b\<close> and \<open>Inl e\<close> when
  the exception \<open>e\<close> leaves it.
\<close>

record 'p opts =
  mainNetPrefix :: 'p
  testNetPrefix :: 'p
  regtestPrefix :: 'p

record base58Opts = "int list list option opts" +
  bufferLength :: int

subsection \<open>Base58Check\<close>

text \<open>
  The inner loop of \<open>validatePrefix\<close> from \<open>byteIndex\<close> on: \<open>False\<close> is the
  \<open>break\<close> and the loop's end, \<open>True\<close> is \<open>return true\<close>.
\<close>

function validatePrefix_bytes :: "int list \<Rightarrow> int list \<Rightarrow> nat \<Rightarrow> bool" where
  "validatePrefix_bytes currentPrefix buf byteIndex =
     (if byteIndex < length currentPrefix
      then (if Some (currentPrefix ! byteIndex) \<noteq> at buf byteIndex then False
            else if byteIndex = length currentPrefix - 1 then True
            else validatePrefix_bytes currentPrefix buf (byteIndex + 1))
      else False)"
  by pat_completeness auto
termination
  by (relation "measure (\<lambda>(currentPrefix, buf, byteIndex). length currentPrefix - byteIndex)") auto

declare validatePrefix_bytes.simps [simp del]

fun validatePrefix :: "int list list \<Rightarrow> int list \<Rightarrow> bool" where
  "validatePrefix [] buf = False"
| "validatePrefix (currentPrefix # rest) buf =
     (if validatePrefix_bytes currentPrefix buf 0 then True else validatePrefix rest buf)"

text \<open>
  A prefix table is \<open>None\<close> when the configuration has no such field
  (\<open>undefined\<close> is falsy; an array, even an empty one, is truthy).
\<close>

definition base58Validator ::
  "(string \<Rightarrow> exn + int list) \<Rightarrow> string \<Rightarrow> string \<Rightarrow> base58Opts \<Rightarrow> exn + bool"
where
  "base58Validator bs58check_decode network address opts =
     (case bs58check_decode address of
        Inl error \<Rightarrow> Inr False
      | Inr buf \<Rightarrow>
          if int (length buf) \<noteq> bufferLength opts then Inr False
          else
            (let prefix =
               (if network = ''main'' then mainNetPrefix opts
                else if network = ''test'' then testNetPrefix opts
                else if network = ''regtest'' then regtestPrefix opts
                else None)
             in case prefix of
                  Some p \<Rightarrow> Inr (validatePrefix p buf)
                | None \<Rightarrow> Inr False))"

subsection \<open>Bech32 and Bech32m\<close>

definition bech32mValidator ::
  "(string \<Rightarrow> int option \<Rightarrow> exn + decoded) \<Rightarrow> string \<Rightarrow> string \<Rightarrow> string opts \<Rightarrow> exn + bool"
where
  "bech32mValidator decodeFn network address opts =
     (case decodeFn address None of
        Inl error \<Rightarrow> Inr False
      | Inr decoded \<Rightarrow>
          (let witnessVersion = at (words decoded) 0 in
             if (case witnessVersion of None \<Rightarrow> False | Some w \<Rightarrow> w < 1 \<or> w > 16)
             then Inr False
             else
               (case fromWords (drop 1 (words decoded)) of
                  Inl e \<Rightarrow> Inl e
                | Inr data \<Rightarrow>
                    if length data < 2 \<or> length data > 40 then Inr False
                    else if network = ''main'' \<and> prefix decoded = mainNetPrefix opts
                    then Inr True
                    else if network = ''test'' \<and> prefix decoded = testNetPrefix opts
                    then Inr True
                    else if network = ''regtest'' \<and> prefix decoded = regtestPrefix opts
                    then Inr True
                    else Inr False)))"

text \<open>\<open>if (limit)\<close>: a missing limit and the limit 0 are falsy.\<close>

definition truthy :: "int option \<Rightarrow> bool" where
  "truthy limit = (case limit of None \<Rightarrow> False | Some n \<Rightarrow> n \<noteq> 0)"

definition bech32Validator ::
  "(string \<Rightarrow> int option \<Rightarrow> exn + decoded) \<Rightarrow> string \<Rightarrow> string \<Rightarrow> string opts \<Rightarrow> int option
     \<Rightarrow> exn + bool"
where
  "bech32Validator decodeFn network address opts limit =
     (case decodeFn address limit of
        Inl error \<Rightarrow> Inr False
      | Inr decoded \<Rightarrow>
          if truthy limit
          then
            (if network = ''main'' \<and> startsWith (toLowerCase address) (mainNetPrefix opts)
             then Inr True
             else if network = ''test'' \<and> startsWith (toLowerCase address) (testNetPrefix opts)
             then Inr True
             else Inr False)
          else
            (let witnessVersion = at (words decoded) 0 in
               if witnessVersion \<noteq> Some 0 then Inr False
               else
                 (case fromWords (drop 1 (words decoded)) of
                    Inl e \<Rightarrow> Inl e
                  | Inr data \<Rightarrow>
                      if length data \<noteq> 20 \<and> length data \<noteq> 32 then Inr False
                      else if network = ''main'' \<and> prefix decoded = mainNetPrefix opts
                      then Inr True
                      else if network = ''test'' \<and> prefix decoded = testNetPrefix opts
                      then Inr True
                      else if network = ''regtest'' \<and> prefix decoded = regtestPrefix opts
                      then Inr True
                      else Inr False)))"

text \<open>\<open>a || b\<close>: \<open>b\<close> is evaluated only when \<open>a\<close> returned \<open>false\<close>.\<close>

definition isBech32Address ::
  "(string \<Rightarrow> int option \<Rightarrow> exn + decoded) \<Rightarrow> string \<Rightarrow> string opts \<Rightarrow> int option \<Rightarrow> exn + bool"
where
  "isBech32Address decodeFn address opts lengthLimit =
     (case bech32Validator decodeFn ''main'' address opts lengthLimit of
        Inl e \<Rightarrow> Inl e
      | Inr True \<Rightarrow> Inr True
      | Inr False \<Rightarrow> bech32Validator decodeFn ''test'' address opts lengthLimit)"

subsection \<open>Zcash\<close>

definition zecBech32Validator ::
  "(string \<Rightarrow> int option \<Rightarrow> exn + decoded) \<Rightarrow> string \<Rightarrow> string \<Rightarrow> string opts \<Rightarrow> exn + bool"
where
  "zecBech32Validator decodeFn network address opts =
     (case decodeFn address None of
        Inl error \<Rightarrow> Inr False
      | Inr decoded \<Rightarrow>
          (case fromWords (words decoded) of
             Inl e \<Rightarrow> Inl e
           | Inr data \<Rightarrow>
               if length data \<noteq> 43 then Inr False
               else if network = ''main'' \<and> prefix decoded = mainNetPrefix opts
               then Inr True
               else if network = ''test'' \<and> prefix decoded = testNetPrefix opts
               then Inr True
               else Inr False))"

definition paddingMask :: string where
  "paddingMask = ''00000000000000000000000000000000''"

definition confirmPadding :: "int list \<Rightarrow> string \<Rightarrow> bool" where
  "confirmPadding unjumbled humanReadiblePadding =
     (let humanReadibleBuffer = toHex (bufferFromString humanReadiblePadding);
          lastBytes = sliceLast 32 (toHex unjumbled);
          paddedRes = take (length paddingMask) (humanReadibleBuffer @ paddingMask)
      in lastBytes = paddedRes)"

definition zecBech32mValidator ::
  "(string \<Rightarrow> int option \<Rightarrow> exn + decoded) \<Rightarrow> (int list \<Rightarrow> exn + int list)
     \<Rightarrow> string \<Rightarrow> string \<Rightarrow> string opts \<Rightarrow> exn + bool"
where
  "zecBech32mValidator decodeFn reverseF4Jumble network address opts =
     (case decodeFn address (Some 512) of
        Inl error \<Rightarrow> Inr False
      | Inr decoded \<Rightarrow>
          (case fromWords (words decoded) of
             Inl e \<Rightarrow> Inl e
           | Inr data \<Rightarrow>
               (case reverseF4Jumble data of
                  Inl e \<Rightarrow> Inl e
                | Inr res \<Rightarrow>
                    if network = ''main'' \<and> confirmPadding res (mainNetPrefix opts)
                    then Inr True
                    else if network = ''test'' \<and> confirmPadding res (testNetPrefix opts)
                    then Inr True
                    else Inr False)))"

subsection \<open>Monero\<close>

record xmr_opts =
  mainNetPublicAddrPrefix :: string
  mainNetIntegratedAddrPrefix :: string
  mainNetSubAddrPrefix :: string
  testNetPublicAddrPrefix :: string
  testNetIntegratedAddrPrefix :: string
  testNetSubAddrPrefix :: string

text \<open>
  \<open>parseInt(s, 16)\<close>: leading white space, a sign and \<open>0x\<close> are skipped, the
  longest run of hexadecimal digits is read, and there is no number (\<open>NaN\<close>, here
  \<open>None\<close>) when that run is empty.
\<close>

definition isWhiteSpace :: "char \<Rightarrow> bool" where
  "isWhiteSpace c = ((of_char c :: int) \<in> {9, 10, 11, 12, 13, 32})"

definition hexValue :: "char \<Rightarrow> int option" where
  "hexValue c =
     (let n = (of_char c :: int) in
        if 48 \<le> n \<and> n \<le> 57 then Some (n - 48)
        else if 97 \<le> n \<and> n \<le> 102 then Some (n - 87)
        else if 65 \<le> n \<and> n \<le> 70 then Some (n - 55)
        else None)"

definition parseInt16 :: "string \<Rightarrow> int option" where
  "parseInt16 s =
     (let s1 = dropWhile isWhiteSpace s;
          negative = (take 1 s1 = ''-'');
          s2 = (if take 1 s1 = ''-'' \<or> take 1 s1 = ''+'' then drop 1 s1 else s1);
          s3 = (if take 2 s2 = ''0x'' \<or> take 2 s2 = ''0X'' then drop 2 s2 else s2);
          digits = takeWhile (\<lambda>c. hexValue c \<noteq> None) s3;
          magnitude = foldl (\<lambda>acc c. 16 * acc + the (hexValue c)) 0 digits
      in if digits = [] then None
         else Some (if negative then - magnitude else magnitude))"

text \<open>Storing into a \<open>Uint8Array\<close>: \<open>NaN\<close> becomes 0, a number its value modulo 256.\<close>

definition toUint8 :: "int option \<Rightarrow> int" where
  "toUint8 v = (case v of None \<Rightarrow> 0 | Some n \<Rightarrow> n mod 256)"

definition hexToBin :: "string \<Rightarrow> int list option" where
  "hexToBin hex =
     (if length hex mod 2 \<noteq> 0 then None
      else Some (map (\<lambda>i. toUint8 (parseInt16 (take 2 (drop (i * 2) hex))))
                     [0..<length hex div 2]))"

definition keccak256Checksum :: "(int list \<Rightarrow> int list) \<Rightarrow> int list option \<Rightarrow> string option" where
  "keccak256Checksum keccak256 payload =
     (case payload of
        Some bytes \<Rightarrow> Some (take 8 (toHex (keccak256 bytes)))
      | None \<Rightarrow> None)"

definition xmrValidator ::
  "(string \<Rightarrow> exn + string) \<Rightarrow> (int list \<Rightarrow> int list) \<Rightarrow> string \<Rightarrow> string \<Rightarrow> xmr_opts
     \<Rightarrow> exn + bool"
where
  "xmrValidator cnBase58_decode keccak256 network address opts =
     (case cnBase58_decode address of
        Inl err \<Rightarrow> Inr False
      | Inr decoded \<Rightarrow>
          (let addrChecksum = sliceLast 8 decoded;
               hashChecksum = keccak256Checksum keccak256 (hexToBin (sliceButLast 8 decoded));
               matchesMainNetPrefix =
                 (startsWith decoded (mainNetPublicAddrPrefix opts)
                  \<or> startsWith decoded (mainNetIntegratedAddrPrefix opts)
                  \<or> startsWith decoded (mainNetSubAddrPrefix opts));
               matchesTestNetPrefix =
                 (startsWith decoded (testNetPublicAddrPrefix opts)
                  \<or> startsWith decoded (testNetIntegratedAddrPrefix opts)
                  \<or> startsWith decoded (testNetSubAddrPrefix opts))
           in if network = ''main'' \<and> matchesMainNetPrefix \<and> Some addrChecksum = hashChecksum
              then Inr True
              else if network = ''test'' \<and> matchesTestNetPrefix \<and> Some addrChecksum = hashChecksum
              then Inr True
              else Inr False))"

section \<open>The Blackpay plugin\<close>

subsection \<open>Regular expressions\<close>

text \<open>
  The regular expression of \<open>validate\<close> is anchored at both ends and has no
  flags, so \<open>re.test(address)\<close> asks whether the whole string belongs to its
  language. \<open>regexTest\<close> decides that by taking the derivative of the
  expression by each character in turn.
\<close>

datatype charItem = Single char | Range char char

fun inItem :: "char \<Rightarrow> charItem \<Rightarrow> bool" where
  "inItem c (Single d) = (c = d)"
| "inItem c (Range lo hi) = ((of_char lo :: nat) \<le> of_char c \<and> (of_char c :: nat) \<le> of_char hi)"

datatype regex =
  Null
| Eps
| Class "charItem list"
| Alt regex regex
| Seq regex regex
| Star regex

definition Opt :: "regex \<Rightarrow> regex" where
  "Opt r = Alt r Eps"

definition Plus :: "regex \<Rightarrow> regex" where
  "Plus r = Seq r (Star r)"

text \<open>\<open>r{0,n}\<close>\<close>

fun UpTo :: "nat \<Rightarrow> regex \<Rightarrow> regex" where
  "UpTo 0 r = Eps"
| "UpTo (Suc n) r = Opt (Seq r (UpTo n r))"

fun nullable :: "regex \<Rightarrow> bool" where
  "nullable Null = False"
| "nullable Eps = True"
| "nullable (Class items) = False"
| "nullable (Alt r s) = (nullable r \<or> nullable s)"
| "nullable (Seq r s) = (nullable r \<and> nullable s)"
| "nullable (Star r) = True"

fun deriv :: "char \<Rightarrow> regex \<Rightarrow> regex" where
  "deriv c Null = Null"
| "deriv c Eps = Null"
| "deriv c (Class items) = (if list_ex (inItem c) items then Eps else Null)"
| "deriv c (Alt r s) = Alt (deriv c r) (deriv c s)"
| "deriv c (Seq r s) =
     (if nullable r then Alt (Seq (deriv c r) s) (deriv c s) else Seq (deriv c r) s)"
| "deriv c (Star r) = Seq (deriv c r) (Star r)"

definition regexTest :: "regex \<Rightarrow> string \<Rightarrow> bool" where
  "regexTest r s = nullable (foldl (\<lambda>r c. deriv c r) r s)"

text \<open>The language of an expression, against which \<open>regexTest\<close> is verified.\<close>

inductive_set star :: "string set \<Rightarrow> string set" for A :: "string set" where
  star_empty: "[] \<in> star A"
| star_more: "u \<in> A \<Longrightarrow> v \<in> star A \<Longrightarrow> u @ v \<in> star A"

fun lang :: "regex \<Rightarrow> string set" where
  "lang Null = {}"
| "lang Eps = {[]}"
| "lang (Class items) = {[c] | c. list_ex (inItem c) items}"
| "lang (Alt r s) = lang r \<union> lang s"
| "lang (Seq r s) = {u @ v | u v. u \<in> lang r \<and> v \<in> lang s}"
| "lang (Star r) = star (lang r)"

subsection \<open>\<open>validate\<close>\<close>

definition alnum :: regex where
  "alnum = Class [Range CHR ''a'' CHR ''z'', Range CHR ''A'' CHR ''Z'', Range CHR ''0'' CHR ''9'']"

definition alnumDash :: regex where
  "alnumDash =
     Class [Range CHR ''a'' CHR ''z'', Range CHR ''A'' CHR ''Z'', Range CHR ''0'' CHR ''9'',
            Single CHR ''-'']"

definition localChar :: regex where
  "localChar =
     Class ([Range CHR ''a'' CHR ''z'', Range CHR ''A'' CHR ''Z'', Range CHR ''0'' CHR ''9'']
            @ map Single (''.!#$%&'' @ [CHR 0x27] @ ''*+/=?^_'' @ [CHR 0x60] @ ''{|}~-''))"

text \<open>One label of the domain: \<open>[a-zA-Z0-9](?:[a-zA-Z0-9-]{0,61}[a-zA-Z0-9])?\<close>\<close>

definition domainLabel :: regex where
  "domainLabel = Seq alnum (Opt (Seq (UpTo 61 alnumDash) alnum))"

definition re :: regex where
  "re =
     Seq (Plus localChar)
       (Seq (Class [Single CHR ''@''])
          (Seq domainLabel (Star (Seq (Class [Single CHR ''.'']) domainLabel))))"

text \<open>
  The network argument of \<open>validate\<close> is a string, \<open>null\<close> or \<open>undefined\<close>.
\<close>

datatype networkArg = Undefined | Null_network | Network string

definition validate :: "networkArg \<Rightarrow> string \<Rightarrow> bool" where
  "validate network address = regexTest re address"

section \<open>Configurations and inputs of the examples\<close>

text \<open>\<open>base58Opts\<close> of the Blackpay plugin; it has no \<open>regtestPrefix\<close>.\<close>

definition blackpayBase58Opts :: base58Opts where
  "blackpayBase58Opts =
     \<lparr>mainNetPrefix = Some [[0x41]], testNetPrefix = Some [[0x41]], regtestPrefix = None,
      bufferLength = 21\<rparr>"

definition emptyAlternativeOpts :: base58Opts where
  "emptyAlternativeOpts =
     \<lparr>mainNetPrefix = Some [[]], testNetPrefix = Some [[0x41]], regtestPrefix = None,
      bufferLength = 21\<rparr>"

text \<open>
  Base58Check needs SHA-256, which is not modelled: the examples use a decoder
  that knows one address, with the 21 bytes it encodes, and rejects all others.
\<close>

definition tronAddress :: string where
  "tronAddress = ''TR7NHqjeKQxGTCi8q8ZY4pL8otSzgjLj6t''"

definition tronBytes :: "int list" where
  "tronBytes =
     [0x41, 0xa6, 0x14, 0xf8, 0x03, 0xb6, 0xfd, 0x78, 0x09, 0x86, 0xa4, 0x2c, 0x78, 0xec,
      0x9c, 0x7f, 0x77, 0xe6, 0xde, 0xd1, 0x3c]"

definition bs58check_one :: "string \<Rightarrow> exn + int list" where
  "bs58check_one address =
     (if address = tronAddress then Inr tronBytes else Inl (Error ''Invalid checksum''))"

definition btcOpts :: "string opts" where
  "btcOpts = \<lparr>mainNetPrefix = ''bc'', testNetPrefix = ''tb'', regtestPrefix = ''bcrt''\<rparr>"

definition lnOpts :: "string opts" where
  "lnOpts = \<lparr>mainNetPrefix = ''lnbc'', testNetPrefix = ''lntb'', regtestPrefix = ''lnbcrt''\<rparr>"

definition zecOpts :: "string opts" where
  "zecOpts =
     \<lparr>mainNetPrefix = ''zs'', testNetPrefix = ''ztestsapling'', regtestPrefix = []\<rparr>"

definition zecRegtestOpts :: "string opts" where
  "zecRegtestOpts =
     \<lparr>mainNetPrefix = ''zs'', testNetPrefix = ''zregtestsapling'', regtestPrefix = []\<rparr>"

definition uaOpts :: "string opts" where
  "uaOpts = \<lparr>mainNetPrefix = ''u'', testNetPrefix = ''utest'', regtestPrefix = []\<rparr>"

text \<open>
  Strings with a valid checksum, the first six from the test vectors of BIP-173
  and BIP-350.
\<close>

definition segwitV0 :: string where
  "segwitV0 = ''bc1qar0srrr7xfkvy5l643lydnw9re59gtzzwf5mdq''"

definition segwitV0BadPadding :: string where
  "segwitV0BadPadding = ''tb1qrp33g0q5c5txsp9arysrx4k6zdkfs4nce4xj0gdcccefvpysxf3pjxtptv''"

definition taproot :: string where
  "taproot = ''bc1p0xlxvlhemja6c4dqv22uapctqupfhlxm9h8z3k2e72q4k9hcz7vqzk5jj0''"

definition taprootBadPadding :: string where
  "taprootBadPadding = ''tb1p0xlxvlhemja6c4dqv22uapctqupfhlxm9h8z3k2e72q4k9hcz7vpggkg4j''"

definition version17 :: string where
  "version17 = ''BC130XLXVLHEMJA6C4DQV22UAPCTQUPFHLXM9H8Z3K2E72Q4K9HCZ7VQ7ZWS8R''"

definition emptyData :: string where
  "emptyData = ''a12uel5l''"

text \<open>The words 1, 2, 3 under the prefix \<open>lnbc\<close>, and the single word 0 under \<open>zs\<close> and \<open>u\<close>.\<close>

definition invoiceLike :: string where
  "invoiceLike = ''lnbc1pzrux4t4q''"

definition oneWordZs :: string where
  "oneWordZs = ''zs1q6wqm80''"

definition oneWordU :: string where
  "oneWordU = ''u1qhwe68s''"

text \<open>
  The bytes 1 to 43 under the prefixes \<open>zs\<close> (78 characters) and
  \<open>zregtestsapling\<close> (91 characters).
\<close>

definition sapling78 :: string where
  "sapling78 =
     ''zs1qypqxpq9qcrsszg2pvxq6rs0zqg3yyc5z5tpwxqergd3c8g7ruszzg3rysjjvfeg9y4zkvtfdeq''"

definition sapling91 :: string where
  "sapling91 =
     ''zregtestsapling1qypqxpq9qcrsszg2pvxq6rs0zqg3yyc5z5tpwxqergd3c8g7ruszzg3rysjjvfeg9y4zkmcjr0n''"

definition saplingWords :: "int list" where
  "saplingWords =
     [0, 4, 1, 0, 6, 1, 0, 5, 0, 24, 3, 16, 16, 2, 8, 10, 1, 12, 6, 0, 26, 3, 16, 15, 2, 0,
      8, 17, 4, 4, 24, 20, 2, 20, 11, 1, 14, 6, 0, 25, 3, 8, 13, 17, 24, 7, 8, 30, 3, 28, 16,
      2, 2, 8, 17, 3, 4, 16, 18, 18, 12, 9, 25, 8, 5, 4, 21, 2, 22]"

definition saplingBytes :: "int list" where
  "saplingBytes = [1..43]"

text \<open>
  The bytes 1, 2, 3, 4 followed by the 16 bytes of \<open>u\<close> and of \<open>utest\<close> padded with
  zeros. F4Jumble is not in the sources; the examples take \<open>identityUnjumble\<close>,
  which returns its argument, as the de-jumbling function.
\<close>

definition unified :: string where
  "unified = ''u1qypqxpr4qqqqqqqqqqqqqqqqqqqqqqqq0jg7hv''"

definition unifiedTest :: string where
  "unifiedTest = ''utest1qypqxpr4w3jhxaqqqqqqqqqqqqqqqqqqa8vaar''"

definition identityUnjumble :: "int list \<Rightarrow> exn + int list" where
  "identityUnjumble data = Inr data"

definition unifiedWords :: "int list" where
  "unifiedWords =
     [0, 4, 1, 0, 6, 1, 3, 21, 0, 0, 0, 0, 0, 0, 0, 0, 0, 0, 0, 0, 0, 0, 0, 0, 0, 0, 0, 0, 0,
      0, 0, 0]"

definition unifiedBytes :: "int list" where
  "unifiedBytes = [1, 2, 3, 4, 0x75, 0, 0, 0, 0, 0, 0, 0, 0, 0, 0, 0, 0, 0, 0, 0]"

text \<open>
  Monero: a decoder that knows three strings and a hash that knows the Keccak-256
  digest of the empty input.
\<close>

definition xmrOpts :: xmr_opts where
  "xmrOpts =
     \<lparr>mainNetPublicAddrPrefix = ''12'', mainNetIntegratedAddrPrefix = ''13'',
      mainNetSubAddrPrefix = ''2a'', testNetPublicAddrPrefix = ''35'',
      testNetIntegratedAddrPrefix = ''36'', testNetSubAddrPrefix = ''3f''\<rparr>"

definition xmrLongPrefixOpts :: xmr_opts where
  "xmrLongPrefixOpts =
     \<lparr>mainNetPublicAddrPrefix = ''c5'', mainNetIntegratedAddrPrefix = ''13'',
      mainNetSubAddrPrefix = ''2a'', testNetPublicAddrPrefix = ''35'',
      testNetIntegratedAddrPrefix = ''36'', testNetSubAddrPrefix = ''3f''\<rparr>"

definition cnBase58_three :: "string \<Rightarrow> exn + string" where
  "cnBase58_three address =
     (if address = ''even'' then Inr ''12ab00000000''
      else if address = ''odd'' then Inr ''12a00000000''
      else if address = ''short'' then Inr ''c5d24601''
      else Inl (Error ''Invalid address''))"

definition keccak256_empty :: "int list \<Rightarrow> int list" where
  "keccak256_empty bytes =
     (if bytes = []
      then [0xc5, 0xd2, 0x46, 0x01, 0x86, 0xf7, 0x23, 0x3c, 0x92, 0x7e, 0x7d, 0xb2, 0xdc, 0xc7,
            0x03, 0xc0, 0xe5, 0x00, 0xb6, 0x53, 0xca, 0x82, 0x27, 0x3b, 0x7b, 0xfa, 0xd8, 0x04,
            0x5d, 0x85, 0xa4, 0x70]
      else replicate 32 0)"

section \<open>The specification's formulations\<close>

text \<open>\<open>s.padEnd(n, c)\<close>: \<open>s\<close> filled up with \<open>c\<close> to the length \<open>n\<close>.\<close>

definition padEnd :: "nat \<Rightarrow> char \<Rightarrow> string \<Rightarrow> string" where
  "padEnd n c s = s @ replicate (n - length s) c"

text \<open>
  The padding comparison as the specification words it: the hexadecimal form of
  the prefix, padded with \<open>0\<close> to 34 digits, against the last 32 digits of the payload.
\<close>

definition specPadding34 :: "int list \<Rightarrow> string \<Rightarrow> bool" where
  "specPadding34 unjumbled humanReadablePrefix =
     (padEnd 34 CHR ''0'' (toHex (bufferFromString humanReadablePrefix))
        = sliceLast 32 (toHex unjumbled))"

section \<open>Auxiliary facts\<close>

lemma fromWords_Nil: "fromWords [] = Inr []"
  by (simp add: fromWords_def convert_def)

lemma at_0: "at xs 0 = (case xs of [] \<Rightarrow> None | x # _ \<Rightarrow> Some x)"
  by (cases xs) (simp_all add: at_def)

subsection \<open>Hexadecimal strings determine the bytes\<close>


lemma length_byteHex: "length (byteHex b) = 2"
  by (simp add: byteHex_def)

lemma length_toHex: "length (toHex bs) = 2 * length bs"
  by (induction bs) (simp_all add: toHex_def length_byteHex)

lemma toHex_Nil: "toHex [] = []"
  by (simp add: toHex_def)

lemma toHex_Cons: "toHex (b # bs) = byteHex b @ toHex bs"
  by (simp add: toHex_def)

lemma toHex_append: "toHex (xs @ ys) = toHex xs @ toHex ys"
  by (simp add: toHex_def)

lemma hexDigit_eq_iff: "hexDigit a = hexDigit b \<longleftrightarrow> a mod 16 = b mod 16"
proof -
  have d: "distinct ''0123456789abcdef''" by simp
  have a: "nat (a mod 16) < length ''0123456789abcdef''" by simp
  have b: "nat (b mod 16) < length ''0123456789abcdef''" by simp
  have "hexDigit a = hexDigit b \<longleftrightarrow> nat (a mod 16) = nat (b mod 16)"
    unfolding hexDigit_def using nth_eq_iff_index_eq [OF d a b] .
  also have "\<dots> \<longleftrightarrow> a mod 16 = b mod 16"
    by (simp add: eq_nat_nat_iff)
  finally show ?thesis .
qed


lemma byte_split: "(x::int) mod 256 = 16 * (x div 16 mod 16) + x mod 16"
proof -
  have "x mod 256 = x mod (16 * 16)" by simp
  also have "\<dots> = 16 * (x div 16 mod 16) + x mod 16"
    by (rule zmod_zmult2_eq) simp
  finally show ?thesis .
qed

lemma byteHex_eq_iff: "byteHex a = byteHex b \<longleftrightarrow> a mod 256 = b mod 256"
proof -
  have "byteHex a = byteHex b \<longleftrightarrow> a div 16 mod 16 = b div 16 mod 16 \<and> a mod 16 = b mod 16"
    by (simp add: byteHex_def hexDigit_eq_iff)
  also have "\<dots> \<longleftrightarrow> a mod 256 = b mod 256"
  proof
    assume "a div 16 mod 16 = b div 16 mod 16 \<and> a mod 16 = b mod 16"
    then show "a mod 256 = b mod 256"
      by (simp add: byte_split)
  next
    assume eq: "a mod 256 = b mod 256"
    have "a mod 256 mod 16 = a mod 16" "b mod 256 mod 16 = b mod 16"
      by (simp_all add: mod_mod_cancel)
    with eq have low: "a mod 16 = b mod 16" by metis
    have "a mod 256 div 16 = a div 16 mod 16" "b mod 256 div 16 = b div 16 mod 16"
      by (simp_all add: byte_split)
    with eq have "a div 16 mod 16 = b div 16 mod 16" by metis
    with low show "a div 16 mod 16 = b div 16 mod 16 \<and> a mod 16 = b mod 16" by simp
  qed
  finally show ?thesis .
qed


lemma toHex_eq_iff:
  "toHex xs = toHex ys \<longleftrightarrow> map (\<lambda>b. b mod 256) xs = map (\<lambda>b. b mod 256) ys"
proof (induction xs arbitrary: ys)
  case Nil
  have "toHex ys = [] \<longleftrightarrow> ys = []"
    using length_toHex [of ys] by (cases ys) (auto simp: toHex_Nil)
  then show ?case by (auto simp: toHex_Nil)
next
  case (Cons x xs)
  show ?case
  proof (cases ys)
    case Nil
    have "toHex (x # xs) \<noteq> []"
      using length_toHex [of "x # xs"] by auto
    with Nil show ?thesis by (simp add: toHex_Nil)
  next
    case (Cons y ys')
    have "toHex (x # xs) = toHex (y # ys') \<longleftrightarrow> byteHex x = byteHex y \<and> toHex xs = toHex ys'"
      by (simp add: toHex_Cons length_byteHex)
    with Cons Cons.IH [of ys'] show ?thesis
      by (simp add: byteHex_eq_iff)
  qed
qed

lemma drop_toHex: "drop (2 * n) (toHex bs) = toHex (drop n bs)"
proof (induction bs arbitrary: n)
  case Nil
  show ?case by (simp add: toHex_Nil)
next
  case (Cons b bs)
  show ?case
  proof (cases n)
    case 0
    then show ?thesis by simp
  next
    case (Suc m)
    with Cons.IH [of m] show ?thesis
      by (simp add: toHex_Cons length_byteHex)
  qed
qed


lemma byteHex_0: "byteHex 0 = ''00''"
  by (simp add: byteHex_def hexDigit_def)

lemma toHex_zeros: "toHex (replicate n 0) = replicate (2 * n) CHR ''0''"
  by (induction n) (simp_all add: toHex_Nil toHex_Cons byteHex_0)

lemma bufferFromString_bytes: "map (\<lambda>b. b mod 256) (bufferFromString s) = bufferFromString s"
proof -
  have "\<And>c::char. (of_char c :: int) mod 256 = of_char c"
    by (simp add: of_char_mod_256)
  then show ?thesis by (simp add: bufferFromString_def)
qed

lemma length_bufferFromString: "length (bufferFromString s) = length s"
  by (simp add: bufferFromString_def)

lemma paddingMask_zeros: "paddingMask = replicate 32 CHR ''0''"
  by code_simp


lemma paddedRes_bytes:
  assumes "length p \<le> 16"
  shows "take (length paddingMask) (toHex (bufferFromString p) @ paddingMask)
           = toHex (bufferFromString p @ replicate (16 - length p) 0)"
proof -
  have len: "length (toHex (bufferFromString p)) = 2 * length p"
    by (simp add: length_toHex length_bufferFromString)
  have "take 32 (toHex (bufferFromString p) @ replicate 32 CHR ''0'')
          = toHex (bufferFromString p) @ take (32 - 2 * length p) (replicate 32 CHR ''0'')"
    using assms len by simp
  also have "take (32 - 2 * length p) (replicate 32 CHR ''0'')
               = replicate (2 * (16 - length p)) CHR ''0''"
    using assms by (simp add: min_def)
  also have "toHex (bufferFromString p) @ replicate (2 * (16 - length p)) CHR ''0''
               = toHex (bufferFromString p @ replicate (16 - length p) 0)"
    by (simp only: toHex_append toHex_zeros)
  finally show ?thesis by (simp add: paddingMask_zeros)
qed

text \<open>
  In bytes, for a prefix of at most 16 characters: the payload has at least 16
  bytes and its last 16 are the prefix followed by zeros.
\<close>

lemma confirmPadding_bytes:
  assumes "length p \<le> 16"
  shows "confirmPadding res p \<longleftrightarrow>
           16 \<le> length res
           \<and> map (\<lambda>b. b mod 256) (sliceLast 16 res)
               = bufferFromString p @ replicate (16 - length p) 0"
proof -
  let ?padded = "bufferFromString p @ replicate (16 - length p) 0"
  have unfold: "confirmPadding res p \<longleftrightarrow> sliceLast 32 (toHex res) = toHex ?padded"
    using paddedRes_bytes [OF assms] by (simp add: confirmPadding_def)
  have len: "length (toHex ?padded) = 32"
    using assms by (simp add: length_toHex length_bufferFromString)
  show ?thesis
  proof (cases "16 \<le> length res")
    case False
    then have "length (sliceLast 32 (toHex res)) < 32"
      by (simp add: sliceLast_def length_toHex)
    with len have "sliceLast 32 (toHex res) \<noteq> toHex ?padded" by auto
    with False unfold show ?thesis by simp
  next
    case True
    then have "2 * length res - 32 = 2 * (length res - 16)" by simp
    then have "sliceLast 32 (toHex res) = toHex (sliceLast 16 res)"
      by (simp add: sliceLast_def length_toHex drop_toHex)
    moreover have "map (\<lambda>b. b mod 256) ?padded = ?padded"
      by (simp add: bufferFromString_bytes)
    ultimately show ?thesis
      using True unfold by (simp add: toHex_eq_iff)
  qed
qed

subsection \<open>\<open>hexToBin\<close> reads back what \<open>toHex\<close> writes\<close>


lemma hexValue_hexDigit_nth:
  "\<forall>k<16. hexValue (''0123456789abcdef'' ! k) = Some (int k)"
  by (simp add: eval_nat_numeral All_less_Suc hexValue_def)

lemma hexValue_hexDigit: "hexValue (hexDigit n) = Some (n mod 16)"
proof -
  have "nat (n mod 16) < 16" by simp
  with hexValue_hexDigit_nth
  have "hexValue (''0123456789abcdef'' ! nat (n mod 16)) = Some (int (nat (n mod 16)))"
    by blast
  then show ?thesis by (simp add: hexDigit_def)
qed

lemma hexValue_plain:
  assumes "hexValue c = Some v"
  shows "\<not> isWhiteSpace c" "c \<noteq> CHR ''-''" "c \<noteq> CHR ''+''" "c \<noteq> CHR ''x''"
    "c \<noteq> CHR ''X''"
  using assms by (auto simp: hexValue_def isWhiteSpace_def Let_def split: if_splits)

lemma parseInt16_two_digits:
  assumes "hexValue c1 = Some v1" and "hexValue c2 = Some v2"
  shows "parseInt16 [c1, c2] = Some (16 * v1 + v2)"
  using assms hexValue_plain [OF assms(1)] hexValue_plain [OF assms(2)]
  by (simp add: parseInt16_def Let_def)

lemma parseInt16_byteHex: "parseInt16 (byteHex b) = Some (b mod 256)"
  using parseInt16_two_digits [OF hexValue_hexDigit hexValue_hexDigit, of "b div 16" b]
  by (simp add: byteHex_def byte_split)

lemma take_2_drop_toHex:
  assumes "i < length bytes"
  shows "take 2 (drop (i * 2) (toHex bytes)) = byteHex (bytes ! i)"
proof -
  have "drop (i * 2) (toHex bytes) = toHex (drop i bytes)"
    using drop_toHex [of i bytes] by (simp add: mult.commute)
  also have "drop i bytes = bytes ! i # drop (Suc i) bytes"
    using assms by (simp add: Cons_nth_drop_Suc)
  finally show ?thesis
    by (simp add: toHex_Cons length_byteHex)
qed

lemma hexToBin_toHex: "hexToBin (toHex bytes) = Some (map (\<lambda>b. b mod 256) bytes)"
proof -
  have "map (\<lambda>i. toUint8 (parseInt16 (take 2 (drop (i * 2) (toHex bytes))))) [0..<length bytes]
          = map (\<lambda>i. bytes ! i mod 256) [0..<length bytes]"
    by (rule map_cong) (simp_all add: take_2_drop_toHex parseInt16_byteHex toUint8_def)
  also have "\<dots> = map (\<lambda>b. b mod 256) (map (\<lambda>i. bytes ! i) [0..<length bytes])"
    by simp
  also have "map (\<lambda>i. bytes ! i) [0..<length bytes] = bytes"
    by (rule map_nth)
  finally show ?thesis
    by (simp add: hexToBin_def length_toHex)
qed

section \<open>The package model on the test vectors of BIP-173 and BIP-350\<close>

lemma bech32_valid_vectors:
  "bech32_decode ''A12UEL5L'' None = Inr \<lparr>prefix = ''a'', words = []\<rparr>"
  "bech32_decode ''abcdef1qpzry9x8gf2tvdw0s3jn54khce6mua7lmqqqxw'' None
     = Inr \<lparr>prefix = ''abcdef'', words = [0..31]\<rparr>"
  "bech32_decode ''?1ezyfcl'' None = Inr \<lparr>prefix = ''?'', words = []\<rparr>"
  "bech32m_decode ''a1lqfn3a'' None = Inr \<lparr>prefix = ''a'', words = []\<rparr>"
  "bech32m_decode ''abcdef1l7aum6echk45nj3s0wdvt2fg8x9yrzpqzd3ryx'' None
     = Inr \<lparr>prefix = ''abcdef'', words = rev [0..31]\<rparr>"
  "bech32m_decode ''?1v759aa'' None = Inr \<lparr>prefix = ''?'', words = []\<rparr>"
  by code_simp+

lemma bech32_invalid_vectors:
  "bech32_decode ''A1G7SGD8'' None = Inl (Error ''Invalid checksum for a1g7sgd8'')"
  "bech32_decode ''pzry9x0s0muk'' None
     = Inl (Error ''No separator character for pzry9x0s0muk'')"
  "bech32_decode ''1pzry9x0s0muk'' None = Inl (Error ''Missing prefix for 1pzry9x0s0muk'')"
  "bech32_decode ''x1b4n0q5v'' None = Inl (Error ''Unknown character b'')"
  "bech32_decode ''li1dgmt3'' None = Inl (Error ''Data too short'')"
  "bech32m_decode ''M1VUXWEZ'' None = Inl (Error ''Invalid checksum for m1vuxwez'')"
  "bech32_decode
     ''an84characterslonghumanreadablepartthatcontainsthenumber1andtheexcludedcharactersbio1569pvx''
     None
     = Inl (Error ''Exceeds length limit'')"
  by code_simp+

text \<open>
  The first vector of the segwit addresses: version 0 and the 20 bytes of the
  witness program; as a Bech32m string it has the wrong checksum.
\<close>

lemma segwitV0_program:
  "bech32_decode segwitV0 None
     = Inr \<lparr>prefix = ''bc'',
            words = [0, 29, 3, 15, 16, 3, 3, 3, 30, 6, 9, 22, 12, 4, 20, 31, 26, 21, 17, 31, 4,
                     13, 19, 14, 5, 3, 25, 20, 5, 8, 11, 2, 2]\<rparr>"
  "fromWords [29, 3, 15, 16, 3, 3, 3, 30, 6, 9, 22, 12, 4, 20, 31, 26, 21, 17, 31, 4, 13, 19,
              14, 5, 3, 25, 20, 5, 8, 11, 2, 2]
     = Inr [0xe8, 0xdf, 0x01, 0x8c, 0x7e, 0x32, 0x6c, 0xc2, 0x53, 0xfa, 0xac, 0x7e, 0x46, 0xcd,
            0xc5, 0x1e, 0x68, 0x54, 0x2c, 0x42]"
  "bech32m_decode segwitV0 None = Inl (Error (''Invalid checksum for '' @ segwitV0))"
  by code_simp+

section \<open>Bech32m (claim C4)\<close>

text \<open>
  C4. \<open>bech32mValidator\<close> returns \<open>true\<close> exactly when the candidate decodes, the
  first decoded word is between 1 and 16, the remaining words re-pack to between
  2 and 40 bytes, and the decoded prefix is the configured prefix of the network
  (\<open>main\<close>, \<open>test\<close> or \<open>regtest\<close>). A decoded candidate whose first word is 17
  makes it return \<open>false\<close> whatever its prefix and length.
\<close>

theorem bech32mValidator_accepts_iff:
  "(bech32mValidator decodeFn network address opts = Inr True \<longleftrightarrow>
      (\<exists>d w data.
         decodeFn address None = Inr d
         \<and> at (words d) 0 = Some w \<and> 1 \<le> w \<and> w \<le> 16
         \<and> fromWords (drop 1 (words d)) = Inr data
         \<and> 2 \<le> length data \<and> length data \<le> 40
         \<and> (network = ''main'' \<and> prefix d = mainNetPrefix opts
            \<or> network = ''test'' \<and> prefix d = testNetPrefix opts
            \<or> network = ''regtest'' \<and> prefix d = regtestPrefix opts)))
   \<and> (\<forall>d. decodeFn address None = Inr d \<and> at (words d) 0 = Some 17
          \<longrightarrow> bech32mValidator decodeFn network address opts = Inr False)"
proof (cases "decodeFn address None")
  case (Inl e)
  then show ?thesis by (simp add: bech32mValidator_def)
next
  case (Inr d)
  show ?thesis
  proof (cases "words d")
    case Nil
    with Inr show ?thesis
      by (simp add: bech32mValidator_def at_0 fromWords_Nil)
  next
    case (Cons w ws)
    with Inr show ?thesis
      by (cases "fromWords ws") (auto simp: bech32mValidator_def at_0)
  qed
qed

theorem bech32mValidator_accepts_iff_witness:
  "bech32mValidator bech32m_decode ''main'' taproot btcOpts = Inr True
   \<and> bech32mValidator bech32m_decode ''main'' version17 btcOpts = Inr False"
proof
  have "case bech32m_decode taproot None of
          Inl e \<Rightarrow> False
        | Inr d \<Rightarrow>
            (case at (words d) 0 of
               None \<Rightarrow> False
             | Some w \<Rightarrow>
                 1 \<le> w \<and> w \<le> 16
                 \<and> (case fromWords (drop 1 (words d)) of
                      Inl e \<Rightarrow> False
                    | Inr data \<Rightarrow>
                        2 \<le> length data \<and> length data \<le> 40
                        \<and> prefix d = mainNetPrefix btcOpts))"
    by code_simp
  then have "\<exists>d w data.
         bech32m_decode taproot None = Inr d
         \<and> at (words d) 0 = Some w \<and> 1 \<le> w \<and> w \<le> 16
         \<and> fromWords (drop 1 (words d)) = Inr data
         \<and> 2 \<le> length data \<and> length data \<le> 40
         \<and> prefix d = mainNetPrefix btcOpts"
    by (auto split: sum.splits option.splits)
  then show "bech32mValidator bech32m_decode ''main'' taproot btcOpts = Inr True"
    using bech32mValidator_accepts_iff [of bech32m_decode "''main''" taproot btcOpts]
    by blast
next
  have "case bech32m_decode version17 None of
          Inl e \<Rightarrow> False
        | Inr d \<Rightarrow> at (words d) 0 = Some 17"
    by code_simp
  then obtain d where "bech32m_decode version17 None = Inr d" "at (words d) 0 = Some 17"
    by (auto split: sum.splits)
  then show "bech32mValidator bech32m_decode ''main'' version17 btcOpts = Inr False"
    using bech32mValidator_accepts_iff [of bech32m_decode "''main''" version17 btcOpts]
    by blast
qed

section \<open>Bech32 (claims C5, C10 and C8)\<close>

text \<open>Standard mode is entered whenever the limit is falsy.\<close>

lemma bech32Validator_falsy:
  assumes "\<not> truthy limit"
  shows "bech32Validator decodeFn network address opts limit = Inr True \<longleftrightarrow>
      (\<exists>d data.
         decodeFn address limit = Inr d
         \<and> at (words d) 0 = Some 0
         \<and> fromWords (drop 1 (words d)) = Inr data
         \<and> (length data = 20 \<or> length data = 32)
         \<and> (network = ''main'' \<and> prefix d = mainNetPrefix opts
            \<or> network = ''test'' \<and> prefix d = testNetPrefix opts
            \<or> network = ''regtest'' \<and> prefix d = regtestPrefix opts))"
proof (cases "decodeFn address limit")
  case (Inl e)
  then show ?thesis by (simp add: bech32Validator_def)
next
  case (Inr d)
  show ?thesis
  proof (cases "fromWords (drop 1 (words d))")
    case (Inl e)
    with Inr assms show ?thesis by (simp add: bech32Validator_def)
  next
    case data: (Inr data)
    with Inr assms show ?thesis by (auto simp: bech32Validator_def)
  qed
qed

lemma bech32Validator_truthy:
  assumes "truthy limit"
  shows "bech32Validator decodeFn network address opts limit =
           Inr ((\<exists>d. decodeFn address limit = Inr d)
                \<and> (network = ''main'' \<and> startsWith (toLowerCase address) (mainNetPrefix opts)
                   \<or> network = ''test'' \<and> startsWith (toLowerCase address) (testNetPrefix opts)))"
  using assms by (cases "decodeFn address limit") (auto simp: bech32Validator_def)

text \<open>The package's decoder treats the limit 0 as no limit, and a limit as a ceiling.\<close>

lemma decode_limit_0: "decode K str (Some 0) = decode K str None"
  by (simp add: decode_def decode_inner_def)

lemma decode_over_limit:
  "limit \<noteq> 0 \<Longrightarrow> limit < int (length str) \<Longrightarrow> \<exists>e. decode K str (Some limit) = Inl e"
  by (simp add: decode_def decode_inner_def)

lemma decode_None_ceiling:
  "decode K str None =
     (if 90 < length str then Inl (Error ''Exceeds length limit'')
      else decode K str (Some (int (length str))))"
  by (simp add: decode_def decode_inner_def)

text \<open>
  C5. Called without a length limit, \<open>bech32Validator\<close> returns \<open>true\<close> exactly when
  the candidate decodes, the first decoded word is 0, the remaining words re-pack
  to exactly 20 or exactly 32 bytes, and the decoded prefix is the configured
  prefix of the network.
\<close>

theorem bech32Validator_standard_mode:
  "bech32Validator decodeFn network address opts None = Inr True \<longleftrightarrow>
      (\<exists>d data.
         decodeFn address None = Inr d
         \<and> at (words d) 0 = Some 0
         \<and> fromWords (drop 1 (words d)) = Inr data
         \<and> (length data = 20 \<or> length data = 32)
         \<and> (network = ''main'' \<and> prefix d = mainNetPrefix opts
            \<or> network = ''test'' \<and> prefix d = testNetPrefix opts
            \<or> network = ''regtest'' \<and> prefix d = regtestPrefix opts))"
  by (rule bech32Validator_falsy) (simp add: truthy_def)

theorem bech32Validator_standard_mode_witness:
  "bech32Validator bech32_decode ''main'' segwitV0 btcOpts None = Inr True
   \<and> bech32Validator bech32_decode ''test'' segwitV0 btcOpts None \<noteq> Inr True"
proof
  have "case bech32_decode segwitV0 None of
          Inl e \<Rightarrow> False
        | Inr d \<Rightarrow>
            at (words d) 0 = Some 0
            \<and> (case fromWords (drop 1 (words d)) of
                 Inl e \<Rightarrow> False
               | Inr data \<Rightarrow> length data = 20 \<and> prefix d = mainNetPrefix btcOpts)"
    by code_simp
  then have "\<exists>d data.
         bech32_decode segwitV0 None = Inr d
         \<and> at (words d) 0 = Some 0
         \<and> fromWords (drop 1 (words d)) = Inr data
         \<and> (length data = 20 \<or> length data = 32)
         \<and> prefix d = mainNetPrefix btcOpts"
    by (auto split: sum.splits)
  then show "bech32Validator bech32_decode ''main'' segwitV0 btcOpts None = Inr True"
    using bech32Validator_standard_mode [of bech32_decode "''main''" segwitV0 btcOpts]
    by blast
next
  have "case bech32_decode segwitV0 None of
          Inl e \<Rightarrow> False
        | Inr d \<Rightarrow> prefix d \<noteq> testNetPrefix btcOpts"
    by code_simp
  then have "\<not> (\<exists>d. bech32_decode segwitV0 None = Inr d \<and> prefix d = testNetPrefix btcOpts)"
    by (auto split: sum.splits)
  then show "bech32Validator bech32_decode ''test'' segwitV0 btcOpts None \<noteq> Inr True"
    using bech32Validator_standard_mode [of bech32_decode "''test''" segwitV0 btcOpts]
    by auto
qed

text \<open>
  C10. With the limit 0 \<open>bech32Validator\<close> is in standard mode: it returns \<open>true\<close>
  exactly when the candidate decodes (the decoder being given the limit 0), the
  first word is 0, the remaining words re-pack to 20 or 32 bytes and the decoded
  prefix is the network's; the lower-cased candidate is not looked at. With the
  package's decoder the result is the one of the call without a limit.
\<close>

theorem bech32Validator_limit_zero:
  "(bech32Validator decodeFn network address opts (Some 0) = Inr True \<longleftrightarrow>
      (\<exists>d data.
         decodeFn address (Some 0) = Inr d
         \<and> at (words d) 0 = Some 0
         \<and> fromWords (drop 1 (words d)) = Inr data
         \<and> (length data = 20 \<or> length data = 32)
         \<and> (network = ''main'' \<and> prefix d = mainNetPrefix opts
            \<or> network = ''test'' \<and> prefix d = testNetPrefix opts
            \<or> network = ''regtest'' \<and> prefix d = regtestPrefix opts)))
   \<and> bech32Validator bech32_decode network address opts (Some 0)
       = bech32Validator bech32_decode network address opts None"
proof
  show "bech32Validator decodeFn network address opts (Some 0) = Inr True \<longleftrightarrow>
      (\<exists>d data.
         decodeFn address (Some 0) = Inr d
         \<and> at (words d) 0 = Some 0
         \<and> fromWords (drop 1 (words d)) = Inr data
         \<and> (length data = 20 \<or> length data = 32)
         \<and> (network = ''main'' \<and> prefix d = mainNetPrefix opts
            \<or> network = ''test'' \<and> prefix d = testNetPrefix opts
            \<or> network = ''regtest'' \<and> prefix d = regtestPrefix opts))"
    by (rule bech32Validator_falsy) (simp add: truthy_def)
next
  show "bech32Validator bech32_decode network address opts (Some 0)
       = bech32Validator bech32_decode network address opts None"
    by (cases "decode 1 address None")
       (simp_all add: bech32Validator_def bech32_decode_def decode_limit_0 truthy_def)
qed

theorem bech32Validator_limit_zero_witness:
  "bech32Validator bech32_decode ''main'' invoiceLike lnOpts (Some 0) \<noteq> Inr True
   \<and> startsWith (toLowerCase invoiceLike) (mainNetPrefix lnOpts)
   \<and> bech32Validator bech32_decode ''main'' segwitV0 btcOpts (Some 0) = Inr True"
proof (intro conjI)
  have "case bech32_decode invoiceLike (Some 0) of
          Inl e \<Rightarrow> False
        | Inr d \<Rightarrow> at (words d) 0 \<noteq> Some 0"
    by code_simp
  then have "\<not> (\<exists>d. bech32_decode invoiceLike (Some 0) = Inr d \<and> at (words d) 0 = Some 0)"
    by (auto split: sum.splits)
  then show "bech32Validator bech32_decode ''main'' invoiceLike lnOpts (Some 0) \<noteq> Inr True"
    using bech32Validator_limit_zero [of bech32_decode "''main''" invoiceLike lnOpts]
    by auto
next
  show "startsWith (toLowerCase invoiceLike) (mainNetPrefix lnOpts)"
    by code_simp
next
  have "bech32Validator bech32_decode ''main'' segwitV0 btcOpts None = Inr True"
    by code_simp
  then show "bech32Validator bech32_decode ''main'' segwitV0 btcOpts (Some 0) = Inr True"
    using bech32Validator_limit_zero [of bech32_decode "''main''" segwitV0 btcOpts]
    by simp
qed

text \<open>
  C8, as the specification has it, for any supplied limit: \<open>bech32Validator\<close>
  returns \<open>true\<close> exactly when the candidate decodes under the limit, the network
  is \<open>main\<close> or \<open>test\<close> and the lower-cased candidate starts with the network's
  prefix. It fails for the supplied limit 0: \<open>invoiceLike\<close> decodes, the network
  is \<open>main\<close> and the candidate starts with \<open>lnbc\<close>, yet the result is \<open>false\<close>.
\<close>

theorem bech32Validator_invoice_mode_limit_zero_counterexample:
  "bech32_decode invoiceLike (Some 0) = Inr \<lparr>prefix = ''lnbc'', words = [1, 2, 3]\<rparr>
   \<and> startsWith (toLowerCase invoiceLike) (mainNetPrefix lnOpts)
   \<and> bech32Validator bech32_decode ''main'' invoiceLike lnOpts (Some 0) = Inr False"
  by code_simp

text \<open>
  C8, amended. When a limit other than 0 is supplied, \<open>bech32Validator\<close> gives the
  limit to the decoder, makes no witness-version or payload-length check, never
  throws, and returns \<open>true\<close> exactly when the candidate decodes, the network is
  \<open>main\<close> or \<open>test\<close> and the lower-cased candidate starts with that network's
  prefix; with the package's decoder a candidate longer than the limit is rejected.
  \<open>isBech32Address\<close> returns \<open>true\<close> exactly when \<open>bech32Validator\<close> does so for
  \<open>main\<close> or for \<open>test\<close>.
\<close>

theorem bech32Validator_invoice_mode:
  "(truthy limit \<longrightarrow>
      bech32Validator decodeFn network address opts limit =
        Inr ((\<exists>d. decodeFn address limit = Inr d)
             \<and> (network = ''main'' \<and> startsWith (toLowerCase address) (mainNetPrefix opts)
                \<or> network = ''test'' \<and> startsWith (toLowerCase address) (testNetPrefix opts))))
   \<and> (truthy (Some n) \<and> n < int (length address) \<longrightarrow>
        bech32Validator bech32_decode network address opts (Some n) = Inr False)
   \<and> (isBech32Address decodeFn address opts lengthLimit = Inr True \<longleftrightarrow>
        bech32Validator decodeFn ''main'' address opts lengthLimit = Inr True
        \<or> bech32Validator decodeFn ''test'' address opts lengthLimit = Inr True)"
proof (intro conjI impI)
  assume "truthy limit"
  then show "bech32Validator decodeFn network address opts limit =
        Inr ((\<exists>d. decodeFn address limit = Inr d)
             \<and> (network = ''main'' \<and> startsWith (toLowerCase address) (mainNetPrefix opts)
                \<or> network = ''test'' \<and> startsWith (toLowerCase address) (testNetPrefix opts)))"
    by (rule bech32Validator_truthy)
next
  assume over: "truthy (Some n) \<and> n < int (length address)"
  then have "n \<noteq> 0" by (simp add: truthy_def)
  with over obtain e where "bech32_decode address (Some n) = Inl e"
    unfolding bech32_decode_def using decode_over_limit [of n address 1] by blast
  then show "bech32Validator bech32_decode network address opts (Some n) = Inr False"
    by (simp add: bech32Validator_def)
next
  show "isBech32Address decodeFn address opts lengthLimit = Inr True \<longleftrightarrow>
        bech32Validator decodeFn ''main'' address opts lengthLimit = Inr True
        \<or> bech32Validator decodeFn ''test'' address opts lengthLimit = Inr True"
  proof (cases "truthy lengthLimit")
    case True
    then show ?thesis
      by (auto simp: isBech32Address_def bech32Validator_truthy split: bool.splits)
  next
    case False
    show ?thesis
    proof (cases "decodeFn address lengthLimit")
      case (Inl e)
      then show ?thesis by (simp add: isBech32Address_def bech32Validator_def)
    next
      case (Inr d)
      with False show ?thesis
        by (cases "fromWords (drop 1 (words d))")
           (auto simp: isBech32Address_def bech32Validator_def)
    qed
  qed
qed

theorem bech32Validator_invoice_mode_witness:
  "bech32Validator bech32_decode ''main'' invoiceLike lnOpts (Some 2000) = Inr True
   \<and> bech32Validator bech32_decode ''main'' invoiceLike lnOpts (Some 10) = Inr False
   \<and> isBech32Address bech32_decode invoiceLike lnOpts (Some 2000) = Inr True"
proof (intro conjI)
  have t: "truthy (Some 2000)" by (simp add: truthy_def)
  have "case bech32_decode invoiceLike (Some 2000) of Inl e \<Rightarrow> False | Inr d \<Rightarrow> True"
    by code_simp
  then have d: "\<exists>d. bech32_decode invoiceLike (Some 2000) = Inr d"
    by (auto split: sum.splits)
  have p: "startsWith (toLowerCase invoiceLike) (mainNetPrefix lnOpts)"
    by code_simp
  show main: "bech32Validator bech32_decode ''main'' invoiceLike lnOpts (Some 2000) = Inr True"
    using bech32Validator_invoice_mode
            [where limit = "Some 2000" and decodeFn = bech32_decode and network = "''main''"
               and address = invoiceLike and opts = lnOpts]
      t d p
    by simp
  have "truthy (Some 10) \<and> 10 < int (length invoiceLike)"
    by (simp add: truthy_def invoiceLike_def)
  then show "bech32Validator bech32_decode ''main'' invoiceLike lnOpts (Some 10) = Inr False"
    using bech32Validator_invoice_mode
            [where n = 10 and network = "''main''" and address = invoiceLike and opts = lnOpts]
    by blast
  show "isBech32Address bech32_decode invoiceLike lnOpts (Some 2000) = Inr True"
    using bech32Validator_invoice_mode
            [where decodeFn = bech32_decode and address = invoiceLike and opts = lnOpts
               and lengthLimit = "Some 2000"]
      main
    by blast
qed

section \<open>Zcash, Bech32 (claim C3)\<close>

text \<open>
  C3, as the specification has it: no ceiling on the length, so that a candidate
  of any length that otherwise decodes, re-packs to 43 bytes and carries the
  configured prefix is accepted. \<open>sapling91\<close> has 91 characters; it decodes
  under the limit 91 to the prefix \<open>zregtestsapling\<close> and 69 words that re-pack
  to 43 bytes, and the prefix is the one configured for \<open>test\<close>. Decoded without
  a limit, as the validator does, it exceeds the package's default of 90.
\<close>

theorem zecBech32Validator_no_ceiling_counterexample:
  "length sapling91 = 91
   \<and> bech32_decode sapling91 (Some 91)
       = Inr \<lparr>prefix = ''zregtestsapling'', words = saplingWords\<rparr>
   \<and> fromWords saplingWords = Inr saplingBytes
   \<and> length saplingBytes = 43
   \<and> testNetPrefix zecRegtestOpts = ''zregtestsapling''
   \<and> bech32_decode sapling91 None = Inl (Error ''Exceeds length limit'')
   \<and> zecBech32Validator bech32_decode ''test'' sapling91 zecRegtestOpts = Inr False"
  by code_simp

text \<open>
  C3, amended. \<open>zecBech32Validator\<close> decodes the candidate without a limit
  argument and returns \<open>true\<close> exactly when the decoding succeeds, all the decoded
  words (none is skipped) re-pack to exactly 43 bytes, and the decoded prefix is
  the configured prefix of \<open>main\<close> or of \<open>test\<close>; a failed decoding and any other
  network give \<open>false\<close>. The package's decoder, given no limit, applies a ceiling
  of 90 characters: up to 90 characters it decodes as under any sufficient limit,
  and a longer candidate is rejected.
\<close>

theorem zecBech32Validator_accepts_iff:
  "(zecBech32Validator decodeFn network address opts = Inr True \<longleftrightarrow>
      (\<exists>d data.
         decodeFn address None = Inr d
         \<and> fromWords (words d) = Inr data
         \<and> length data = 43
         \<and> (network = ''main'' \<and> prefix d = mainNetPrefix opts
            \<or> network = ''test'' \<and> prefix d = testNetPrefix opts)))
   \<and> ((\<exists>e. decodeFn address None = Inl e)
        \<longrightarrow> zecBech32Validator decodeFn network address opts = Inr False)
   \<and> bech32_decode address None =
        (if 90 < length address then Inl (Error ''Exceeds length limit'')
         else bech32_decode address (Some (int (length address))))
   \<and> (90 < length address
        \<longrightarrow> zecBech32Validator bech32_decode network address opts = Inr False)"
proof (intro conjI impI)
  show "zecBech32Validator decodeFn network address opts = Inr True \<longleftrightarrow>
      (\<exists>d data.
         decodeFn address None = Inr d
         \<and> fromWords (words d) = Inr data
         \<and> length data = 43
         \<and> (network = ''main'' \<and> prefix d = mainNetPrefix opts
            \<or> network = ''test'' \<and> prefix d = testNetPrefix opts))"
  proof (cases "decodeFn address None")
    case (Inl e)
    then show ?thesis by (simp add: zecBech32Validator_def)
  next
    case (Inr d)
    then show ?thesis
      by (cases "fromWords (words d)") (auto simp: zecBech32Validator_def)
  qed
next
  assume "\<exists>e. decodeFn address None = Inl e"
  then show "zecBech32Validator decodeFn network address opts = Inr False"
    by (auto simp: zecBech32Validator_def)
next
  show ceiling: "bech32_decode address None =
        (if 90 < length address then Inl (Error ''Exceeds length limit'')
         else bech32_decode address (Some (int (length address))))"
    unfolding bech32_decode_def by (rule decode_None_ceiling)
  assume "90 < length address"
  with ceiling have "bech32_decode address None = Inl (Error ''Exceeds length limit'')"
    by simp
  then show "zecBech32Validator bech32_decode network address opts = Inr False"
    by (simp add: zecBech32Validator_def)
qed

theorem zecBech32Validator_accepts_iff_witness:
  "zecBech32Validator bech32_decode ''main'' sapling78 zecOpts = Inr True
   \<and> zecBech32Validator bech32_decode ''test'' sapling91 zecRegtestOpts = Inr False
   \<and> zecBech32Validator bech32_decode ''main'' (tl sapling78) zecOpts = Inr False"
proof (intro conjI)
  have "bech32_decode sapling78 None = Inr \<lparr>prefix = ''zs'', words = saplingWords\<rparr>
        \<and> fromWords saplingWords = Inr saplingBytes
        \<and> length saplingBytes = 43
        \<and> mainNetPrefix zecOpts = ''zs''"
    by code_simp
  then have "\<exists>d data.
         bech32_decode sapling78 None = Inr d
         \<and> fromWords (words d) = Inr data
         \<and> length data = 43
         \<and> prefix d = mainNetPrefix zecOpts"
    by (intro exI [of _ "\<lparr>prefix = ''zs'', words = saplingWords\<rparr>"] exI [of _ saplingBytes])
       simp
  then show "zecBech32Validator bech32_decode ''main'' sapling78 zecOpts = Inr True"
    using zecBech32Validator_accepts_iff [of bech32_decode "''main''" sapling78 zecOpts]
    by blast
next
  have "90 < length sapling91" by (simp add: sapling91_def)
  then show "zecBech32Validator bech32_decode ''test'' sapling91 zecRegtestOpts = Inr False"
    using zecBech32Validator_accepts_iff
            [where address = sapling91 and network = "''test''" and opts = zecRegtestOpts]
    by blast
next
  have "case bech32_decode (tl sapling78) None of Inl e \<Rightarrow> True | Inr d \<Rightarrow> False"
    by code_simp
  then have "\<exists>e. bech32_decode (tl sapling78) None = Inl e"
    by (auto split: sum.splits)
  then show "zecBech32Validator bech32_decode ''main'' (tl sapling78) zecOpts = Inr False"
    using zecBech32Validator_accepts_iff [of bech32_decode "''main''" "tl sapling78" zecOpts]
    by blast
qed

section \<open>Zcash, unified addresses (claim C2)\<close>

text \<open>
  C2, as the specification has it: the validator accepts exactly when the
  hexadecimal form of the prefix, padded with \<open>0\<close> to 34 digits, equals the last
  32 digits of the de-jumbled payload. \<open>unified\<close> decodes under the limit 512,
  re-packs and de-jumbles to \<open>unifiedBytes\<close>, and is accepted for \<open>main\<close>, while
  the comparison of the specification, between strings of 34 and of 32 digits,
  fails.
\<close>

theorem zecBech32mValidator_padding_34_counterexample:
  "bech32m_decode unified (Some 512) = Inr \<lparr>prefix = ''u'', words = unifiedWords\<rparr>
   \<and> fromWords unifiedWords = Inr unifiedBytes
   \<and> identityUnjumble unifiedBytes = Inr unifiedBytes
   \<and> zecBech32mValidator bech32m_decode identityUnjumble ''main'' unified uaOpts = Inr True
   \<and> \<not> specPadding34 unifiedBytes (mainNetPrefix uaOpts)"
  by code_simp

text \<open>
  C2, amended. For a candidate that decodes under Bech32m with the limit 512,
  re-packs and is de-jumbled to \<open>res\<close>, \<open>zecBech32mValidator\<close> returns \<open>true\<close>
  exactly when, for the network \<open>main\<close> or \<open>test\<close>, the hexadecimal form of the
  network's prefix followed by 32 digits \<open>0\<close>, cut to its first 32 digits, equals
  the last 32 hexadecimal digits of the payload. For prefixes of at most 16
  characters that is: the payload has at least 16 bytes, and its last 16 bytes
  are the bytes of the prefix followed by zero bytes.
\<close>

theorem zecBech32mValidator_padding:
  assumes "decodeFn address (Some 512) = Inr d"
    and "fromWords (words d) = Inr data"
    and "reverseF4Jumble data = Inr res"
  shows "(zecBech32mValidator decodeFn reverseF4Jumble network address opts = Inr True \<longleftrightarrow>
            network = ''main''
            \<and> sliceLast 32 (toHex res)
                = take 32 (toHex (bufferFromString (mainNetPrefix opts)) @ replicate 32 CHR ''0'')
            \<or> network = ''test''
            \<and> sliceLast 32 (toHex res)
                = take 32 (toHex (bufferFromString (testNetPrefix opts)) @ replicate 32 CHR ''0''))
       \<and> (length (mainNetPrefix opts) \<le> 16 \<and> length (testNetPrefix opts) \<le> 16 \<longrightarrow>
            (zecBech32mValidator decodeFn reverseF4Jumble network address opts = Inr True \<longleftrightarrow>
               16 \<le> length res
               \<and> (network = ''main''
                  \<and> map (\<lambda>b. b mod 256) (sliceLast 16 res)
                      = bufferFromString (mainNetPrefix opts)
                          @ replicate (16 - length (mainNetPrefix opts)) 0
                  \<or> network = ''test''
                  \<and> map (\<lambda>b. b mod 256) (sliceLast 16 res)
                      = bufferFromString (testNetPrefix opts)
                          @ replicate (16 - length (testNetPrefix opts)) 0)))"
proof -
  have run: "zecBech32mValidator decodeFn reverseF4Jumble network address opts = Inr True \<longleftrightarrow>
               network = ''main'' \<and> confirmPadding res (mainNetPrefix opts)
               \<or> network = ''test'' \<and> confirmPadding res (testNetPrefix opts)"
    using assms by (auto simp: zecBech32mValidator_def)
  have hex: "\<And>p. confirmPadding res p \<longleftrightarrow>
               sliceLast 32 (toHex res)
                 = take 32 (toHex (bufferFromString p) @ replicate 32 CHR ''0'')"
    by (simp add: confirmPadding_def paddingMask_zeros Let_def)
  show ?thesis
  proof (intro conjI impI)
    show "zecBech32mValidator decodeFn reverseF4Jumble network address opts = Inr True \<longleftrightarrow>
            network = ''main''
            \<and> sliceLast 32 (toHex res)
                = take 32 (toHex (bufferFromString (mainNetPrefix opts)) @ replicate 32 CHR ''0'')
            \<or> network = ''test''
            \<and> sliceLast 32 (toHex res)
                = take 32 (toHex (bufferFromString (testNetPrefix opts)) @ replicate 32 CHR ''0'')"
      unfolding run hex ..
  next
    assume short: "length (mainNetPrefix opts) \<le> 16 \<and> length (testNetPrefix opts) \<le> 16"
    then have "confirmPadding res (mainNetPrefix opts) \<longleftrightarrow>
                 16 \<le> length res
                 \<and> map (\<lambda>b. b mod 256) (sliceLast 16 res)
                     = bufferFromString (mainNetPrefix opts)
                         @ replicate (16 - length (mainNetPrefix opts)) 0"
      and "confirmPadding res (testNetPrefix opts) \<longleftrightarrow>
                 16 \<le> length res
                 \<and> map (\<lambda>b. b mod 256) (sliceLast 16 res)
                     = bufferFromString (testNetPrefix opts)
                         @ replicate (16 - length (testNetPrefix opts)) 0"
      by (simp_all add: confirmPadding_bytes)
    then show "zecBech32mValidator decodeFn reverseF4Jumble network address opts = Inr True \<longleftrightarrow>
               16 \<le> length res
               \<and> (network = ''main''
                  \<and> map (\<lambda>b. b mod 256) (sliceLast 16 res)
                      = bufferFromString (mainNetPrefix opts)
                          @ replicate (16 - length (mainNetPrefix opts)) 0
                  \<or> network = ''test''
                  \<and> map (\<lambda>b. b mod 256) (sliceLast 16 res)
                      = bufferFromString (testNetPrefix opts)
                          @ replicate (16 - length (testNetPrefix opts)) 0)"
      unfolding run by blast
  qed
qed

theorem zecBech32mValidator_padding_witness:
  "zecBech32mValidator bech32m_decode identityUnjumble ''main'' unified uaOpts = Inr True
   \<and> zecBech32mValidator bech32m_decode identityUnjumble ''test'' unified uaOpts \<noteq> Inr True"
proof -
  have d: "bech32m_decode unified (Some 512) = Inr \<lparr>prefix = ''u'', words = unifiedWords\<rparr>"
    by code_simp
  have w: "fromWords (words \<lparr>prefix = ''u'', words = unifiedWords\<rparr>) = Inr unifiedBytes"
    by code_simp
  have u: "identityUnjumble unifiedBytes = Inr unifiedBytes"
    by (simp add: identityUnjumble_def)
  have short: "length (mainNetPrefix uaOpts) \<le> 16 \<and> length (testNetPrefix uaOpts) \<le> 16"
    by (simp add: uaOpts_def)
  have tail: "16 \<le> length unifiedBytes
              \<and> map (\<lambda>b. b mod 256) (sliceLast 16 unifiedBytes)
                  = bufferFromString (mainNetPrefix uaOpts)
                      @ replicate (16 - length (mainNetPrefix uaOpts)) 0"
    by code_simp
  have other: "map (\<lambda>b. b mod 256) (sliceLast 16 unifiedBytes)
                 \<noteq> bufferFromString (testNetPrefix uaOpts)
                     @ replicate (16 - length (testNetPrefix uaOpts)) 0"
    by code_simp
  note inst =
    zecBech32mValidator_padding
      [where decodeFn = bech32m_decode and address = unified
         and d = "\<lparr>prefix = ''u'', words = unifiedWords\<rparr>" and data = unifiedBytes
         and reverseF4Jumble = identityUnjumble and res = unifiedBytes and opts = uaOpts,
       OF d w u]
  show ?thesis
  proof
    show "zecBech32mValidator bech32m_decode identityUnjumble ''main'' unified uaOpts = Inr True"
      using inst [where network = "''main''"] short tail by blast
    show "zecBech32mValidator bech32m_decode identityUnjumble ''test'' unified uaOpts \<noteq> Inr True"
      using inst [where network = "''test''"] short other by auto
  qed
qed

section \<open>Base58Check (claim C6)\<close>

text \<open>
  The inner loop returns \<open>true\<close> from index \<open>i\<close> exactly when there is an index
  left to look at and every byte from \<open>i\<close> on agrees with the decoded bytes.
\<close>

lemma validatePrefix_bytes_iff:
  "validatePrefix_bytes p buf i \<longleftrightarrow>
     i < length p \<and> (\<forall>j. i \<le> j \<and> j < length p \<longrightarrow> at buf j = Some (p ! j))"
proof (induction p buf i rule: validatePrefix_bytes.induct)
  case (1 p buf i)
  show ?case
  proof (cases "i < length p")
    case False
    then show ?thesis by (subst validatePrefix_bytes.simps) simp
  next
    case inside: True
    show ?thesis
    proof (cases "Some (p ! i) = at buf i")
      case False
      with inside show ?thesis
        by (subst validatePrefix_bytes.simps) auto
    next
      case same: True
      show ?thesis
      proof (cases "i = length p - 1")
        case True
        have "validatePrefix_bytes p buf i"
          using inside same True by (subst validatePrefix_bytes.simps) simp
        moreover have "\<forall>j. i \<le> j \<and> j < length p \<longrightarrow> at buf j = Some (p ! j)"
        proof (intro allI impI)
          fix j assume "i \<le> j \<and> j < length p"
          with True have "j = i" by arith
          with same show "at buf j = Some (p ! j)" by simp
        qed
        ultimately show ?thesis using inside by simp
      next
        case False
        have split: "(\<forall>j. i \<le> j \<and> j < length p \<longrightarrow> at buf j = Some (p ! j)) \<longleftrightarrow>
                     at buf i = Some (p ! i)
                     \<and> (\<forall>j. i + 1 \<le> j \<and> j < length p \<longrightarrow> at buf j = Some (p ! j))"
        proof (intro iffI conjI allI impI)
          assume all: "\<forall>j. i \<le> j \<and> j < length p \<longrightarrow> at buf j = Some (p ! j)"
          from all inside show "at buf i = Some (p ! i)" by simp
          fix j assume "i + 1 \<le> j \<and> j < length p"
          with all show "at buf j = Some (p ! j)" by simp
        next
          fix j
          assume rest: "at buf i = Some (p ! i)
                     \<and> (\<forall>j. i + 1 \<le> j \<and> j < length p \<longrightarrow> at buf j = Some (p ! j))"
            and j: "i \<le> j \<and> j < length p"
          show "at buf j = Some (p ! j)"
          proof (cases "j = i")
            case True
            with rest show ?thesis by simp
          next
            case False
            with j have "i + 1 \<le> j \<and> j < length p" by arith
            with rest show ?thesis by blast
          qed
        qed
        from False inside have next_in: "i + 1 < length p" by simp
        have "validatePrefix_bytes p buf i = validatePrefix_bytes p buf (i + 1)"
          using inside same False by (subst validatePrefix_bytes.simps) simp
        also have "\<dots> \<longleftrightarrow> i + 1 < length p
                     \<and> (\<forall>j. i + 1 \<le> j \<and> j < length p \<longrightarrow> at buf j = Some (p ! j))"
          using "1.IH" inside same False by simp
        finally show ?thesis
          using split same next_in inside by simp
      qed
    qed
  qed
qed

lemma at_all_iff_take:
  "(\<forall>j. j < length p \<longrightarrow> at buf j = Some (p ! j)) \<longleftrightarrow> take (length p) buf = p"
proof
  assume all: "\<forall>j. j < length p \<longrightarrow> at buf j = Some (p ! j)"
  have len: "length p \<le> length buf"
  proof (cases p)
    case Nil
    then show ?thesis by simp
  next
    case (Cons x xs)
    then have "at buf (length p - 1) = Some (p ! (length p - 1))" using all by simp
    then have "length p - 1 < length buf" by (simp add: at_def split: if_splits)
    then show ?thesis by simp
  qed
  show "take (length p) buf = p"
  proof (rule nth_equalityI)
    show "length (take (length p) buf) = length p" using len by simp
  next
    fix j assume "j < length (take (length p) buf)"
    then have j: "j < length p" "j < length buf" by simp_all
    with all have "at buf j = Some (p ! j)" by blast
    with j show "take (length p) buf ! j = p ! j" by (simp add: at_def)
  qed
next
  assume eq: "take (length p) buf = p"
  have "length (take (length p) buf) \<le> length buf" by simp
  with eq have len: "length p \<le> length buf" by simp
  show "\<forall>j. j < length p \<longrightarrow> at buf j = Some (p ! j)"
  proof (intro allI impI)
    fix j assume j: "j < length p"
    have "p ! j = take (length p) buf ! j" using eq by simp
    also have "\<dots> = buf ! j" using j by simp
    finally show "at buf j = Some (p ! j)" using j len by (simp add: at_def)
  qed
qed

lemma validatePrefix_bytes_0:
  "validatePrefix_bytes p buf 0 \<longleftrightarrow> p \<noteq> [] \<and> startsWith buf p"
  using at_all_iff_take [of p buf]
  by (simp add: validatePrefix_bytes_iff startsWith_def)

lemma validatePrefix_iff:
  "validatePrefix ps buf \<longleftrightarrow> (\<exists>p \<in> set ps. p \<noteq> [] \<and> startsWith buf p)"
  by (induction ps) (auto simp: validatePrefix_bytes_0)

text \<open>
  C6, as the specification has it: with a successful decoding of the configured
  length and a known network, the validator returns \<open>true\<close> exactly when the
  decoded bytes start with one of the alternatives. Every byte string starts with
  the empty alternative, and the validator returns \<open>false\<close> for it.
\<close>

theorem base58Validator_empty_alternative_counterexample:
  "bs58check_one tronAddress = Inr tronBytes
   \<and> int (length tronBytes) = bufferLength emptyAlternativeOpts
   \<and> mainNetPrefix emptyAlternativeOpts = Some [[]]
   \<and> startsWith tronBytes []
   \<and> base58Validator bs58check_one ''main'' tronAddress emptyAlternativeOpts = Inr False"
  by code_simp

text \<open>
  C6, amended. \<open>base58Validator\<close> never throws; it returns \<open>false\<close> when the
  decoding fails, and otherwise returns \<open>true\<close> exactly when the number of
  decoded bytes is the configured length, the network is \<open>main\<close>, \<open>test\<close> or
  \<open>regtest\<close> with a configured table of alternatives, and the decoded bytes start
  with at least one non-empty alternative of that table, whatever the
  alternatives before it are.
\<close>

theorem base58Validator_accepts_iff:
  "(base58Validator bs58check_decode network address opts = Inr True \<longleftrightarrow>
      (\<exists>buf alternatives.
         bs58check_decode address = Inr buf
         \<and> int (length buf) = bufferLength opts
         \<and> (network = ''main'' \<and> mainNetPrefix opts = Some alternatives
            \<or> network = ''test'' \<and> testNetPrefix opts = Some alternatives
            \<or> network = ''regtest'' \<and> regtestPrefix opts = Some alternatives)
         \<and> (\<exists>p \<in> set alternatives. p \<noteq> [] \<and> startsWith buf p)))
   \<and> ((\<exists>e. bs58check_decode address = Inl e)
        \<longrightarrow> base58Validator bs58check_decode network address opts = Inr False)
   \<and> (\<exists>b. base58Validator bs58check_decode network address opts = Inr b)"
proof (cases "bs58check_decode address")
  case (Inl e)
  then show ?thesis by (auto simp: base58Validator_def)
next
  case (Inr buf)
  show ?thesis
  proof (cases "int (length buf) = bufferLength opts")
    case False
    with Inr show ?thesis by (auto simp: base58Validator_def)
  next
    case True
    with Inr show ?thesis
      by (auto simp: base58Validator_def validatePrefix_iff split: option.splits)
  qed
qed

theorem base58Validator_accepts_iff_witness:
  "base58Validator bs58check_one ''main'' tronAddress blackpayBase58Opts = Inr True
   \<and> base58Validator bs58check_one ''main'' segwitV0 blackpayBase58Opts = Inr False"
proof
  have "bs58check_one tronAddress = Inr tronBytes
        \<and> int (length tronBytes) = bufferLength blackpayBase58Opts
        \<and> mainNetPrefix blackpayBase58Opts = Some [[0x41]]
        \<and> startsWith tronBytes [0x41]"
    by code_simp
  then have "\<exists>buf alternatives.
         bs58check_one tronAddress = Inr buf
         \<and> int (length buf) = bufferLength blackpayBase58Opts
         \<and> mainNetPrefix blackpayBase58Opts = Some alternatives
         \<and> (\<exists>p \<in> set alternatives. p \<noteq> [] \<and> startsWith buf p)"
    by (intro exI [of _ tronBytes] exI [of _ "[[0x41]]"]) simp
  then show "base58Validator bs58check_one ''main'' tronAddress blackpayBase58Opts = Inr True"
    using base58Validator_accepts_iff [of bs58check_one "''main''" tronAddress blackpayBase58Opts]
    by blast
next
  have "case bs58check_one segwitV0 of Inl e \<Rightarrow> True | Inr buf \<Rightarrow> False"
    by code_simp
  then have "\<exists>e. bs58check_one segwitV0 = Inl e"
    by (auto split: sum.splits)
  then show "base58Validator bs58check_one ''main'' segwitV0 blackpayBase58Opts = Inr False"
    using base58Validator_accepts_iff [of bs58check_one "''main''" segwitV0 blackpayBase58Opts]
    by blast
qed

section \<open>Monero (claim C7)\<close>

text \<open>
  C7, as the specification has it: the validator returns \<open>true\<close> exactly when the
  payload (the decoded string without its last 8 characters) starts with one of
  the network's prefixes and the checksum fits. The decoded string \<open>c5d24601\<close>
  has the empty payload, whose Keccak-256 digest starts with these four bytes;
  the empty payload starts with none of the prefixes of \<open>xmrLongPrefixOpts\<close>, and
  the validator returns \<open>true\<close>, because it looks for the prefix in the whole
  decoded string.
\<close>

theorem xmrValidator_payload_prefix_counterexample:
  "cnBase58_three ''short'' = Inr ''c5d24601''
   \<and> sliceButLast 8 ''c5d24601'' = []
   \<and> sliceLast 8 ''c5d24601'' = take 8 (toHex (keccak256_empty []))
   \<and> \<not> startsWith (sliceButLast 8 ''c5d24601'') (mainNetPublicAddrPrefix xmrLongPrefixOpts)
   \<and> \<not> startsWith (sliceButLast 8 ''c5d24601'') (mainNetIntegratedAddrPrefix xmrLongPrefixOpts)
   \<and> \<not> startsWith (sliceButLast 8 ''c5d24601'') (mainNetSubAddrPrefix xmrLongPrefixOpts)
   \<and> xmrValidator cnBase58_three keccak256_empty ''main'' ''short'' xmrLongPrefixOpts = Inr True"
  by code_simp

text \<open>
  C7, amended. \<open>xmrValidator\<close> never throws and returns \<open>false\<close> when the
  decoding fails. Otherwise it splits the decoded hexadecimal string into the
  payload (all but the last 8 characters) and the embedded checksum (the last 8
  characters) and returns \<open>true\<close> exactly when the network is \<open>main\<close> or \<open>test\<close>,
  the decoded string (payload and checksum together) starts with one of the
  three prefixes configured for that network, the payload has an even number of
  characters, and the embedded checksum is the first 8 hexadecimal characters of
  Keccak-256 over the payload's bytes. A payload with an odd number of characters
  is rejected, no checksum being computed for it.
\<close>

lemma xmrValidator_decoded:
  assumes "cnBase58_decode address = Inr decoded"
  shows "xmrValidator cnBase58_decode keccak256 network address opts =
           Inr ((network = ''main''
                   \<and> (startsWith decoded (mainNetPublicAddrPrefix opts)
                      \<or> startsWith decoded (mainNetIntegratedAddrPrefix opts)
                      \<or> startsWith decoded (mainNetSubAddrPrefix opts))
                 \<or> network = ''test''
                   \<and> (startsWith decoded (testNetPublicAddrPrefix opts)
                      \<or> startsWith decoded (testNetIntegratedAddrPrefix opts)
                      \<or> startsWith decoded (testNetSubAddrPrefix opts)))
                \<and> Some (sliceLast 8 decoded)
                    = keccak256Checksum keccak256 (hexToBin (sliceButLast 8 decoded)))"
  using assms by (auto simp: xmrValidator_def Let_def)

theorem xmrValidator_accepts_iff:
  "(xmrValidator cnBase58_decode keccak256 network address opts = Inr True \<longleftrightarrow>
      (\<exists>decoded payload.
         cnBase58_decode address = Inr decoded
         \<and> (network = ''main''
              \<and> (startsWith decoded (mainNetPublicAddrPrefix opts)
                 \<or> startsWith decoded (mainNetIntegratedAddrPrefix opts)
                 \<or> startsWith decoded (mainNetSubAddrPrefix opts))
            \<or> network = ''test''
              \<and> (startsWith decoded (testNetPublicAddrPrefix opts)
                 \<or> startsWith decoded (testNetIntegratedAddrPrefix opts)
                 \<or> startsWith decoded (testNetSubAddrPrefix opts)))
         \<and> even (length (sliceButLast 8 decoded))
         \<and> hexToBin (sliceButLast 8 decoded) = Some payload
         \<and> sliceLast 8 decoded = take 8 (toHex (keccak256 payload))))
   \<and> (\<forall>decoded. cnBase58_decode address = Inr decoded \<and> odd (length (sliceButLast 8 decoded))
          \<longrightarrow> keccak256Checksum keccak256 (hexToBin (sliceButLast 8 decoded)) = None
              \<and> xmrValidator cnBase58_decode keccak256 network address opts = Inr False)
   \<and> ((\<exists>e. cnBase58_decode address = Inl e)
        \<longrightarrow> xmrValidator cnBase58_decode keccak256 network address opts = Inr False)
   \<and> (\<exists>b. xmrValidator cnBase58_decode keccak256 network address opts = Inr b)"
proof (cases "cnBase58_decode address")
  case (Inl e)
  then show ?thesis by (auto simp: xmrValidator_def)
next
  case (Inr decoded)
  show ?thesis
  proof (cases "even (length (sliceButLast 8 decoded))")
    case False
    then have "hexToBin (sliceButLast 8 decoded) = None"
      by (simp add: hexToBin_def odd_iff_mod_2_eq_one)
    with Inr False show ?thesis
      by (auto simp: xmrValidator_decoded keccak256Checksum_def)
  next
    case True
    then obtain payload where "hexToBin (sliceButLast 8 decoded) = Some payload"
      by (auto simp: hexToBin_def)
    with Inr True show ?thesis
      by (auto simp: xmrValidator_decoded keccak256Checksum_def)
  qed
qed

theorem xmrValidator_accepts_iff_witness:
  "xmrValidator cnBase58_three keccak256_empty ''main'' ''even'' xmrOpts = Inr True
   \<and> xmrValidator cnBase58_three keccak256_empty ''main'' ''odd'' xmrOpts = Inr False
   \<and> xmrValidator cnBase58_three keccak256_empty ''main'' ''other'' xmrOpts = Inr False"
proof (intro conjI)
  have "cnBase58_three ''even'' = Inr ''12ab00000000''
        \<and> startsWith ''12ab00000000'' (mainNetPublicAddrPrefix xmrOpts)
        \<and> even (length (sliceButLast 8 ''12ab00000000''))
        \<and> hexToBin (sliceButLast 8 ''12ab00000000'') = Some [0x12, 0xab]
        \<and> sliceLast 8 ''12ab00000000'' = take 8 (toHex (keccak256_empty [0x12, 0xab]))"
    by code_simp
  then have "\<exists>decoded payload.
         cnBase58_three ''even'' = Inr decoded
         \<and> startsWith decoded (mainNetPublicAddrPrefix xmrOpts)
         \<and> even (length (sliceButLast 8 decoded))
         \<and> hexToBin (sliceButLast 8 decoded) = Some payload
         \<and> sliceLast 8 decoded = take 8 (toHex (keccak256_empty payload))"
    by (intro exI [of _ "''12ab00000000''"] exI [of _ "[0x12, 0xab]"]) simp
  then show "xmrValidator cnBase58_three keccak256_empty ''main'' ''even'' xmrOpts = Inr True"
    using xmrValidator_accepts_iff
            [of cnBase58_three keccak256_empty "''main''" "''even''" xmrOpts]
    by blast
next
  have "cnBase58_three ''odd'' = Inr ''12a00000000''
        \<and> odd (length (sliceButLast 8 ''12a00000000''))"
    by code_simp
  then show "xmrValidator cnBase58_three keccak256_empty ''main'' ''odd'' xmrOpts = Inr False"
    using xmrValidator_accepts_iff
            [of cnBase58_three keccak256_empty "''main''" "''odd''" xmrOpts]
    by blast
next
  have "case cnBase58_three ''other'' of Inl e \<Rightarrow> True | Inr decoded \<Rightarrow> False"
    by code_simp
  then have "\<exists>e. cnBase58_three ''other'' = Inl e"
    by (auto split: sum.splits)
  then show "xmrValidator cnBase58_three keccak256_empty ''main'' ''other'' xmrOpts = Inr False"
    using xmrValidator_accepts_iff
            [of cnBase58_three keccak256_empty "''main''" "''other''" xmrOpts]
    by blast
qed

section \<open>The Blackpay plugin (claim C9)\<close>

subsection \<open>The derivative test decides the language\<close>

lemma nullable_lang: "nullable r \<longleftrightarrow> [] \<in> lang r"
  by (induction r) (auto intro: star.star_empty)

lemma star_Cons:
  "c # w \<in> star A \<longleftrightarrow> (\<exists>u v. w = u @ v \<and> c # u \<in> A \<and> v \<in> star A)"
proof
  assume "c # w \<in> star A"
  then show "\<exists>u v. w = u @ v \<and> c # u \<in> A \<and> v \<in> star A"
  proof (induction "c # w" arbitrary: w rule: star.induct)
    case (star_more u v)
    show ?case
    proof (cases u)
      case Nil
      with star_more show ?thesis by simp
    next
      case (Cons a u')
      with star_more.hyps(1,2,4) show ?thesis by auto
    qed
  qed
next
  assume "\<exists>u v. w = u @ v \<and> c # u \<in> A \<and> v \<in> star A"
  then obtain u v where "w = u @ v" "c # u \<in> A" "v \<in> star A" by blast
  then have "(c # u) @ v \<in> star A" by (intro star.star_more)
  with \<open>w = u @ v\<close> show "c # w \<in> star A" by simp
qed

lemma lang_Seq_iff:
  "w \<in> lang (Seq r s) \<longleftrightarrow> (\<exists>u v. w = u @ v \<and> u \<in> lang r \<and> v \<in> lang s)"
  by simp

lemma deriv_Seq_lang:
  assumes r: "\<And>w. w \<in> lang (deriv c r) \<longleftrightarrow> c # w \<in> lang r"
    and s: "\<And>w. w \<in> lang (deriv c s) \<longleftrightarrow> c # w \<in> lang s"
  shows "w \<in> lang (deriv c (Seq r s)) \<longleftrightarrow> c # w \<in> lang (Seq r s)"
proof -
  have left: "w \<in> lang (Seq (deriv c r) s) \<longleftrightarrow>
              (\<exists>u v. c # w = u @ v \<and> u \<noteq> [] \<and> u \<in> lang r \<and> v \<in> lang s)"
  proof
    assume "w \<in> lang (Seq (deriv c r) s)"
    then obtain u v where "w = u @ v" "u \<in> lang (deriv c r)" "v \<in> lang s"
      unfolding lang_Seq_iff by blast
    then have "c # w = (c # u) @ v \<and> c # u \<noteq> [] \<and> c # u \<in> lang r \<and> v \<in> lang s"
      using r by simp
    then show "\<exists>u v. c # w = u @ v \<and> u \<noteq> [] \<and> u \<in> lang r \<and> v \<in> lang s" by blast
  next
    assume "\<exists>u v. c # w = u @ v \<and> u \<noteq> [] \<and> u \<in> lang r \<and> v \<in> lang s"
    then obtain u v where uv: "c # w = u @ v" "u \<noteq> []" "u \<in> lang r" "v \<in> lang s" by blast
    then obtain u' where u': "u = c # u'" "w = u' @ v" by (cases u) auto
    with uv r have "u' \<in> lang (deriv c r)" by simp
    with u' uv show "w \<in> lang (Seq (deriv c r) s)" unfolding lang_Seq_iff by blast
  qed
  have right: "nullable r \<and> w \<in> lang (deriv c s) \<longleftrightarrow>
               (\<exists>u v. c # w = u @ v \<and> u = [] \<and> u \<in> lang r \<and> v \<in> lang s)"
    using s by (simp add: nullable_lang)
  have "w \<in> lang (deriv c (Seq r s)) \<longleftrightarrow>
        w \<in> lang (Seq (deriv c r) s) \<or> (nullable r \<and> w \<in> lang (deriv c s))"
    by simp
  also have "\<dots> \<longleftrightarrow> (\<exists>u v. c # w = u @ v \<and> u \<in> lang r \<and> v \<in> lang s)"
    unfolding left right by blast
  finally show ?thesis unfolding lang_Seq_iff .
qed

lemma deriv_Star_lang:
  assumes r: "\<And>w. w \<in> lang (deriv c r) \<longleftrightarrow> c # w \<in> lang r"
  shows "w \<in> lang (deriv c (Star r)) \<longleftrightarrow> c # w \<in> lang (Star r)"
proof -
  have "w \<in> lang (deriv c (Star r)) \<longleftrightarrow>
        (\<exists>u v. w = u @ v \<and> u \<in> lang (deriv c r) \<and> v \<in> star (lang r))"
    by simp
  also have "\<dots> \<longleftrightarrow> (\<exists>u v. w = u @ v \<and> c # u \<in> lang r \<and> v \<in> star (lang r))"
    unfolding r ..
  also have "\<dots> \<longleftrightarrow> c # w \<in> star (lang r)"
    unfolding star_Cons ..
  finally show ?thesis by simp
qed

lemma deriv_lang: "w \<in> lang (deriv c r) \<longleftrightarrow> c # w \<in> lang r"
proof (induction r arbitrary: w)
  case Null
  show ?case by simp
next
  case Eps
  show ?case by simp
next
  case (Class items)
  show ?case by (cases "list_ex (inItem c) items") simp_all
next
  case (Alt r s)
  then show ?case by simp
next
  case (Seq r s)
  then show ?case by (rule deriv_Seq_lang)
next
  case (Star r)
  then show ?case by (rule deriv_Star_lang)
qed

lemma foldl_deriv_lang:
  "[] \<in> lang (foldl (\<lambda>r c. deriv c r) r s) \<longleftrightarrow> s \<in> lang r"
  by (induction s arbitrary: r) (simp_all add: deriv_lang)

lemma regexTest_lang: "regexTest r s \<longleftrightarrow> s \<in> lang r"
  by (simp add: regexTest_def nullable_lang foldl_deriv_lang)

text \<open>
  An accepted address contains the character \<open>@\<close>, which no Base58 or Bech32
  string does.
\<close>

lemma validate_needs_at:
  assumes "validate network address"
  shows "CHR ''@'' \<in> set address"
proof -
  from assms have "address \<in> lang re"
    by (simp add: validate_def regexTest_lang)
  then obtain u v where "address = u @ CHR ''@'' # v"
    by (auto simp: re_def)
  then show ?thesis by simp
qed

subsection \<open>The claim\<close>

text \<open>
  C9. Whatever the network argument is (a tag, \<open>null\<close> or \<open>undefined\<close>),
  \<open>validate\<close> returns \<open>true\<close> exactly when the address belongs to the language of
  the e-mail expression; the result does not depend on the network, and no
  decoder, checksum or prefix table of any address scheme takes part in it.
\<close>

theorem validate_is_email_test:
  "(validate network address \<longleftrightarrow> address \<in> lang re)
   \<and> validate network address = validate network' address"
  by (simp add: validate_def regexTest_lang)

theorem validate_is_email_test_witness:
  "validate Undefined ''user@example.com''
   \<and> validate Null_network ''user@example.com''
   \<and> validate (Network ''main'') ''user@example.com''
   \<and> ''user@example.com'' \<in> lang re
   \<and> \<not> validate (Network ''main'') tronAddress
   \<and> tronAddress \<notin> lang re"
proof -
  have yes: "validate Undefined ''user@example.com''" by code_simp
  have no: "\<not> validate Undefined tronAddress" by code_simp
  show ?thesis
    using yes no
      validate_is_email_test [of Undefined "''user@example.com''" Null_network]
      validate_is_email_test [of Undefined "''user@example.com''" "Network ''main''"]
      validate_is_email_test [of Undefined tronAddress "Network ''main''"]
    by blast
qed

section \<open>Exceptions that leave the validators (claim C1)\<close>

text \<open>
  In the validators of the Bech32 family only the call of the decoder is inside
  \<open>try\<close>: an exception of \<open>fromWords\<close> or of the de-jumbling function leaves the
  validator, and nothing else does.
\<close>

lemma bech32Validator_throws_iff:
  "bech32Validator decodeFn network address opts limit = Inl e \<longleftrightarrow>
     \<not> truthy limit
     \<and> (\<exists>d. decodeFn address limit = Inr d
            \<and> at (words d) 0 = Some 0
            \<and> fromWords (drop 1 (words d)) = Inl e)"
proof (cases "decodeFn address limit")
  case (Inl x)
  then show ?thesis by (simp add: bech32Validator_def)
next
  case (Inr d)
  then show ?thesis
    by (cases "fromWords (drop 1 (words d))") (auto simp: bech32Validator_def)
qed

lemma bech32mValidator_throws_iff:
  "bech32mValidator decodeFn network address opts = Inl e \<longleftrightarrow>
     (\<exists>d w. decodeFn address None = Inr d
            \<and> at (words d) 0 = Some w \<and> 1 \<le> w \<and> w \<le> 16
            \<and> fromWords (drop 1 (words d)) = Inl e)"
proof (cases "decodeFn address None")
  case (Inl x)
  then show ?thesis by (simp add: bech32mValidator_def)
next
  case (Inr d)
  show ?thesis
  proof (cases "words d")
    case Nil
    with Inr show ?thesis by (simp add: bech32mValidator_def at_0 fromWords_Nil)
  next
    case (Cons w ws)
    with Inr show ?thesis
      by (cases "fromWords ws") (auto simp: bech32mValidator_def at_0)
  qed
qed

lemma zecBech32Validator_throws_iff:
  "zecBech32Validator decodeFn network address opts = Inl e \<longleftrightarrow>
     (\<exists>d. decodeFn address None = Inr d \<and> fromWords (words d) = Inl e)"
proof (cases "decodeFn address None")
  case (Inl x)
  then show ?thesis by (simp add: zecBech32Validator_def)
next
  case (Inr d)
  then show ?thesis
    by (cases "fromWords (words d)") (auto simp: zecBech32Validator_def)
qed

lemma zecBech32mValidator_throws_iff:
  "zecBech32mValidator decodeFn reverseF4Jumble network address opts = Inl e \<longleftrightarrow>
     (\<exists>d. decodeFn address (Some 512) = Inr d
          \<and> (fromWords (words d) = Inl e
             \<or> (\<exists>data. fromWords (words d) = Inr data \<and> reverseF4Jumble data = Inl e)))"
proof (cases "decodeFn address (Some 512)")
  case (Inl x)
  then show ?thesis by (simp add: zecBech32mValidator_def)
next
  case (Inr d)
  show ?thesis
  proof (cases "fromWords (words d)")
    case (Inl x)
    with Inr show ?thesis by (simp add: zecBech32mValidator_def)
  next
    case data: (Inr data)
    with Inr show ?thesis
      by (cases "reverseF4Jumble data") (auto simp: zecBech32mValidator_def)
  qed
qed

text \<open>
  C1. Every validator returns a boolean and lets no exception escape. This fails:
  \<open>segwitV0BadPadding\<close> and \<open>taprootBadPadding\<close> decode, carry an admissible
  witness version, and have data bits that do not end on a byte, so that
  \<open>fromWords\<close> throws, outside of any \<open>try\<close>; the two Zcash validators throw in
  the same way on a candidate with a single data word.
\<close>

theorem bech32_validators_throw:
  "bech32Validator bech32_decode ''test'' segwitV0BadPadding btcOpts None
     = Inl (Error ''Non-zero padding'')
   \<and> bech32mValidator bech32m_decode ''test'' taprootBadPadding btcOpts
     = Inl (Error ''Non-zero padding'')
   \<and> zecBech32Validator bech32_decode ''main'' oneWordZs zecOpts
     = Inl (Error ''Excess padding'')
   \<and> zecBech32mValidator bech32m_decode identityUnjumble ''main'' oneWordU uaOpts
     = Inl (Error ''Excess padding'')"
  by code_simp

end
